theory Spec2Isabelle
  imports Main "HOL-Library.AList"
begin

section \<open>Syntax trees\<close>

text \<open>
  The module under analysis is a Babel syntax tree.  The source works on Babel's
  single node type and tells node kinds apart with the \<^verbatim>\<open>t.isX\<close> tests, so the
  model has one type \<open>node\<close> whose constructors carry the Babel type names.  The
  fragment covers imports, the default export, \<^verbatim>\<open>const\<close>/\<^verbatim>\<open>let\<close> declarations,
  function declarations, blocks, and the expressions a route module is made of.
  An array hole (\<^verbatim>\<open>[a, , b]\<close>) is \<open>None\<close> in \<open>ArrayExpression\<close>.

  Field order of the constructors:
  \<^item> \<open>ImportDeclaration specifiers source\<close>, \<open>ImportSpecifier imported local\<close>;
  \<^item> \<open>VariableDeclarator id init\<close>, \<open>FunctionDeclaration id params body\<close>;
  \<^item> \<open>ObjectProperty computed key value\<close>, \<open>ObjectMethod computed key params body\<close>;
  \<^item> \<open>CallExpression callee arguments\<close>, \<open>MemberExpression object property computed\<close>;
  \<^item> \<open>ArrowFunctionExpression params body\<close>.
\<close>

datatype node =
    File node
  | Program "node list"
  | ImportDeclaration "node list" string
  | ImportSpecifier node node
  | ImportDefaultSpecifier node
  | ImportNamespaceSpecifier node
  | ExportDefaultDeclaration node
  | VariableDeclaration "node list"
  | VariableDeclarator node "node option"
  | FunctionDeclaration node "node list" node
  | ExpressionStatement node
  | ReturnStatement "node option"
  | BlockStatement "node list"
  | Identifier string
  | StringLiteral string
  | NumericLiteral int
  | NullLiteral
  | ArrayExpression "node option list"
  | ObjectExpression "node list"
  | ObjectProperty bool node node
  | ObjectMethod bool node "node list" node
  | SpreadElement node
  | CallExpression node "node list"
  | MemberExpression node node bool
  | ArrowFunctionExpression "node list" node

subsection \<open>The type tests of \<^verbatim>\<open>@babel/types\<close>\<close>

fun isIdentifier :: "node \<Rightarrow> bool" where
  "isIdentifier (Identifier name) = True"
| "isIdentifier _ = False"

fun isStringLiteral :: "node \<Rightarrow> bool" where
  "isStringLiteral (StringLiteral v) = True"
| "isStringLiteral _ = False"

fun isArrayExpression :: "node \<Rightarrow> bool" where
  "isArrayExpression (ArrayExpression elements) = True"
| "isArrayExpression _ = False"

fun isObjectExpression :: "node \<Rightarrow> bool" where
  "isObjectExpression (ObjectExpression properties) = True"
| "isObjectExpression _ = False"

fun isObjectProperty :: "node \<Rightarrow> bool" where
  "isObjectProperty (ObjectProperty computed k v) = True"
| "isObjectProperty _ = False"

fun isObjectMethod :: "node \<Rightarrow> bool" where
  "isObjectMethod (ObjectMethod computed k params body) = True"
| "isObjectMethod _ = False"

fun isCallExpression :: "node \<Rightarrow> bool" where
  "isCallExpression (CallExpression callee arguments) = True"
| "isCallExpression _ = False"

fun isImportDeclaration :: "node \<Rightarrow> bool" where
  "isImportDeclaration (ImportDeclaration specifiers source) = True"
| "isImportDeclaration _ = False"

fun isImportSpecifier :: "node \<Rightarrow> bool" where
  "isImportSpecifier (ImportSpecifier imported local) = True"
| "isImportSpecifier _ = False"

fun isExportDefaultDeclaration :: "node \<Rightarrow> bool" where
  "isExportDefaultDeclaration (ExportDefaultDeclaration declaration) = True"
| "isExportDefaultDeclaration _ = False"

fun isFunction :: "node \<Rightarrow> bool" where
  "isFunction (FunctionDeclaration i params body) = True"
| "isFunction (ObjectMethod computed k params body) = True"
| "isFunction (ArrowFunctionExpression params body) = True"
| "isFunction _ = False"

text \<open>A test applied to a node that may be absent (\<^verbatim>\<open>null\<close>/\<^verbatim>\<open>undefined\<close>) is false.\<close>

fun is_a :: "(node \<Rightarrow> bool) \<Rightarrow> node option \<Rightarrow> bool" where
  "is_a t None = False"
| "is_a t (Some n) = t n"

subsection \<open>Children, in the order the traversal visits them\<close>

text \<open>
  A step names a child the way a Babel path string does: \<open>Key ''declaration''\<close> is
  \<^verbatim>\<open>declaration\<close>, \<open>Idx ''properties'' 2\<close> is \<^verbatim>\<open>properties.2\<close>.  A location is the
  list of steps from the root; it stands for the source position of the node.
  The children are listed by the visitor keys of \<^verbatim>\<open>@babel/types\<close>; the source of an
  import declaration is kept as a string and is no child.
\<close>

datatype step = Key string | Idx string nat

type_synonym loc = "step list"

definition indexed :: "string \<Rightarrow> node list \<Rightarrow> (step \<times> node) list" where
  "indexed k ns = map (\<lambda>(i, n). (Idx k i, n)) (enumerate 0 ns)"

definition optional :: "step \<Rightarrow> node option \<Rightarrow> (step \<times> node) list" where
  "optional s n = (case n of None \<Rightarrow> [] | Some c \<Rightarrow> [(s, c)])"

fun children :: "node \<Rightarrow> (step \<times> node) list" where
  "children (File p) = [(Key ''program'', p)]"
| "children (Program body) = indexed ''body'' body"
| "children (ImportDeclaration specifiers source) = indexed ''specifiers'' specifiers"
| "children (ImportSpecifier imported local) =
     [(Key ''local'', local), (Key ''imported'', imported)]"
| "children (ImportDefaultSpecifier local) = [(Key ''local'', local)]"
| "children (ImportNamespaceSpecifier local) = [(Key ''local'', local)]"
| "children (ExportDefaultDeclaration d) = [(Key ''declaration'', d)]"
| "children (VariableDeclaration ds) = indexed ''declarations'' ds"
| "children (VariableDeclarator i init) = (Key ''id'', i) # optional (Key ''init'') init"
| "children (FunctionDeclaration i ps b) =
     (Key ''id'', i) # indexed ''params'' ps @ [(Key ''body'', b)]"
| "children (ExpressionStatement e) = [(Key ''expression'', e)]"
| "children (ReturnStatement a) = optional (Key ''argument'') a"
| "children (BlockStatement body) = indexed ''body'' body"
| "children (Identifier name) = []"
| "children (StringLiteral v) = []"
| "children (NumericLiteral v) = []"
| "children NullLiteral = []"
| "children (ArrayExpression es) =
     concat (map (\<lambda>(i, e). optional (Idx ''elements'' i) e) (enumerate 0 es))"
| "children (ObjectExpression ps) = indexed ''properties'' ps"
| "children (ObjectProperty c k v) = [(Key ''key'', k), (Key ''value'', v)]"
| "children (ObjectMethod c k ps b) =
     (Key ''key'', k) # indexed ''params'' ps @ [(Key ''body'', b)]"
| "children (SpreadElement a) = [(Key ''argument'', a)]"
| "children (CallExpression c as) = (Key ''callee'', c) # indexed ''arguments'' as"
| "children (MemberExpression ob p c) = [(Key ''object'', ob), (Key ''property'', p)]"
| "children (ArrowFunctionExpression ps b) = indexed ''params'' ps @ [(Key ''body'', b)]"

section \<open>Scopes and bindings\<close>

text \<open>
  A binding records what the source reads of it: the declaring node
  (\<^verbatim>\<open>binding.path.node\<close>) and that node's parent (\<^verbatim>\<open>binding.path.parent\<close>).
  A scope is the list of its frames, innermost first; a frame lists the names a
  program, a function or a block declares.

  This is the scope analysis of \<^verbatim>\<open>@babel/traverse\<close> on the fragment: a program, a
  function and a free-standing block open a scope; imports, \<^verbatim>\<open>const\<close> and \<^verbatim>\<open>let\<close>
  declarators and function declarations are bound in the scope that holds their
  statement, parameters in the scope of their function.  The parser rejects a name
  declared twice in one scope, so a frame is read by its first entry for a name.
\<close>

record Binding =
  binding_node :: node
  binding_parent :: node

type_synonym frame = "(string \<times> Binding) list"

type_synonym scope = "frame list"

text \<open>\<^verbatim>\<open>node.name\<close>; it is read only after \<^verbatim>\<open>t.isIdentifier(node)\<close> has held.\<close>

fun name_of :: "node \<Rightarrow> string" where
  "name_of (Identifier name) = name"
| "name_of n = []"

text \<open>\<open>bind i n par\<close>: the identifier \<open>i\<close> names the declaration \<open>n\<close>, a child of \<open>par\<close>.\<close>

definition bind :: "node \<Rightarrow> node \<Rightarrow> node \<Rightarrow> frame" where
  "bind i n par =
     (if isIdentifier i then [(name_of i, \<lparr>binding_node = n, binding_parent = par\<rparr>)] else [])"

text \<open>The name one import specifier, declarator or parameter declares.\<close>

fun declares :: "node \<Rightarrow> node \<Rightarrow> frame" where
  "declares par (ImportSpecifier imported local) =
     bind local (ImportSpecifier imported local) par"
| "declares par (ImportDefaultSpecifier local) = bind local (ImportDefaultSpecifier local) par"
| "declares par (ImportNamespaceSpecifier local) =
     bind local (ImportNamespaceSpecifier local) par"
| "declares par (VariableDeclarator i init) = bind i (VariableDeclarator i init) par"
| "declares par (Identifier x) = bind (Identifier x) (Identifier x) par"
| "declares par n = []"

fun hoisted :: "node \<Rightarrow> node \<Rightarrow> frame" where
  "hoisted par (FunctionDeclaration i ps b) = bind i (FunctionDeclaration i ps b) par"
| "hoisted par n = []"

text \<open>The names a statement registers in the scope that encloses it.\<close>

fun declared :: "node \<Rightarrow> node \<Rightarrow> frame" where
  "declared par (ImportDeclaration specifiers source) =
     concat (map (declares (ImportDeclaration specifiers source)) specifiers)"
| "declared par (VariableDeclaration ds) =
     concat (map (declares (VariableDeclaration ds)) ds)"
| "declared par (FunctionDeclaration i ps b) = hoisted par (FunctionDeclaration i ps b)"
| "declared par (ExportDefaultDeclaration d) = hoisted (ExportDefaultDeclaration d) d"
| "declared par n = []"

fun body_frame :: "node \<Rightarrow> frame" where
  "body_frame (BlockStatement body) = concat (map (declared (BlockStatement body)) body)"
| "body_frame n = []"

text \<open>
  The frame of a scope-opening node.  A function's body block is part of the
  function's own scope, so its declarations join the parameters.
\<close>

fun frame_of :: "node \<Rightarrow> frame" where
  "frame_of (Program body) = concat (map (declared (Program body)) body)"
| "frame_of (BlockStatement body) = body_frame (BlockStatement body)"
| "frame_of (FunctionDeclaration i ps b) =
     concat (map (declares (FunctionDeclaration i ps b)) ps) @ body_frame b"
| "frame_of (ObjectMethod c k ps b) =
     concat (map (declares (ObjectMethod c k ps b)) ps) @ body_frame b"
| "frame_of (ArrowFunctionExpression ps b) =
     concat (map (declares (ArrowFunctionExpression ps b)) ps) @ body_frame b"
| "frame_of n = []"

fun isScope :: "node \<Rightarrow> node option \<Rightarrow> bool" where
  "isScope (Program body) par = True"
| "isScope (BlockStatement body) par = (\<not> is_a isFunction par)"
| "isScope n par = isFunction n"

definition getScope :: "node \<Rightarrow> node option \<Rightarrow> scope \<Rightarrow> scope" where
  "getScope n par sc = (if isScope n par then frame_of n # sc else sc)"

text \<open>\<^verbatim>\<open>scope.getBinding(name)\<close>: the nearest enclosing declaration of the name.\<close>

fun getBinding :: "scope \<Rightarrow> string \<Rightarrow> Binding option" where
  "getBinding [] name = None"
| "getBinding (f # sc) name =
     (case map_of f name of Some b \<Rightarrow> Some b | None \<Rightarrow> getBinding sc name)"

section \<open>Paths and traversal\<close>

text \<open>
  A \<open>NodePath\<close> is a node in its context: its parent, the parent's parent
  (\<^verbatim>\<open>path.parentPath.parent\<close>), the scope it is resolved in, and its location.
\<close>

record NodePath =
  node :: node
  parent :: "node option"
  grandparent :: "node option"
  scope :: scope
  loc :: loc

text \<open>
  \<^verbatim>\<open>path.get(step)\<close>.  A child is resolved in its parent's scope, except the key
  of a method, which is resolved outside the method.
\<close>

definition inherited :: "NodePath \<Rightarrow> step \<Rightarrow> scope" where
  "inherited p s =
     (if isObjectMethod (node p) \<and> s = Key ''key'' then tl (scope p) else scope p)"

definition get :: "NodePath \<Rightarrow> step \<Rightarrow> node \<Rightarrow> NodePath" where
  "get p s c =
     \<lparr>node = c, parent = Some (node p), grandparent = parent p,
      scope = getScope c (Some (node p)) (inherited p s), loc = loc p @ [s]\<rparr>"

lemma size_indexed: "(s, c) \<in> set (indexed k ns) \<Longrightarrow> size c < Suc (size_list size ns)"
  by (auto simp: indexed_def in_set_enumerate_eq less_Suc_eq_le
      intro!: size_list_estimation'[where f = size])

lemma size_optional: "(s, c) \<in> set (optional k n) \<Longrightarrow> size c < Suc (size_option size n)"
  by (auto simp: optional_def split: option.splits)

lemma size_children: "(s, c) \<in> set (children n) \<Longrightarrow> size c < size n"
proof (cases n)
  case (ArrayExpression es)
  assume "(s, c) \<in> set (children n)"
  with ArrayExpression obtain i e where ie: "(i, e) \<in> set (enumerate 0 es)"
    and sc: "(s, c) \<in> set (optional (Idx ''elements'' i) e)"
    by auto
  from ie have "e \<in> set es" by (auto simp: in_set_enumerate_eq)
  then have "size_option size e \<le> size_list (size_option size) es"
    by (rule size_list_estimation') simp
  with size_optional[OF sc] ArrayExpression show ?thesis by simp
qed (auto dest!: size_indexed size_optional)

function walk :: "NodePath \<Rightarrow> NodePath list" where
  "walk p = p # concat (map (\<lambda>(s, c). walk (get p s c)) (children (node p)))"
  by pat_completeness auto
termination
  by (relation "measure (\<lambda>p. size (node p))") (auto simp: get_def dest: size_children)

declare walk.simps [simp del]

text \<open>The same traversal, child by child.\<close>

definition walks :: "NodePath \<Rightarrow> (step \<times> node) list \<Rightarrow> NodePath list" where
  "walks p cs = concat (map (\<lambda>(s, c). walk (get p s c)) cs)"

lemma walk_unfold [code]: "walk p = p # walks p (children (node p))"
  by (subst walk.simps) (simp add: walks_def)

lemma walks_Nil [code]: "walks p [] = []"
  by (simp add: walks_def)

lemma walks_Cons [code]: "walks p ((s, c) # cs) = walk (get p s c) @ walks p cs"
  by (simp add: walks_def)

definition traverse :: "node \<Rightarrow> NodePath list" where
  "traverse ast =
     walk \<lparr>node = ast, parent = None, grandparent = None,
           scope = getScope ast None [], loc = []\<rparr>"

section \<open>Errors\<close>

text \<open>
  Every failure of the source is \<^verbatim>\<open>path.buildCodeFrameError(message)\<close>: a message
  and the location of the path it is built on.  The messages, in the order of the
  constructors:
  \<^item> Default export of a route module must be either a literal object or a call to defineRoute
  \<^item> defineRoute must take exactly one argument
  \<^item> defineRoute argument must be a literal object
  \<^item> Properties cannot be spread into route
  \<^item> Route cannot have computed keys
  \<^item> Route params must be a literal array
  \<^item> Route param must be a literal string
  \<^item> defineRoute cannot be used outside of route modules
  \<^item> defineRoute must be a function call immediately after export default

  \<open>SyntaxError\<close> is what the parser raises; \<open>TypeError\<close> is what the runtime raises
  when a property of \<^verbatim>\<open>undefined\<close> is read.
\<close>

datatype message =
    DefaultExportMustBeObjectOrDefineRoute
  | DefineRouteTakesOneArgument
  | DefineRouteArgumentMustBeObject
  | PropertiesCannotBeSpread
  | RouteCannotHaveComputedKeys
  | RouteParamsMustBeLiteralArray
  | RouteParamMustBeLiteralString
  | DefineRouteOutsideRouteModules
  | DefineRouteMustFollowExportDefault

datatype error = SyntaxError string | TypeError | CodeFrameError loc message

text \<open>The error kinds of the specification, by the message that is raised.\<close>

datatype kind = SchemaError | MisuseError | ImportPresenceError

fun kind_of :: "message \<Rightarrow> kind" where
  "kind_of DefineRouteOutsideRouteModules = ImportPresenceError"
| "kind_of DefineRouteMustFollowExportDefault = MisuseError"
| "kind_of m = SchemaError"

section \<open>The canonical factory import\<close>

fun source_of :: "node \<Rightarrow> string option" where
  "source_of (ImportDeclaration specifiers source) = Some source"
| "source_of n = None"

fun imported_of :: "node \<Rightarrow> node option" where
  "imported_of (ImportSpecifier imported local) = Some imported"
| "imported_of n = None"

definition isCanonicallyImportedAs :: "Binding \<Rightarrow> string \<Rightarrow> string \<Rightarrow> bool" where
  "isCanonicallyImportedAs binding sourceName importedName =
     (if \<not> isImportDeclaration (binding_parent binding) then False
      else if source_of (binding_parent binding) \<noteq> Some sourceName then False
      else if \<not> isImportSpecifier (binding_node binding) then False
      else
        (case imported_of (binding_node binding) of
           None \<Rightarrow> False
         | Some imported \<Rightarrow>
             if \<not> isIdentifier imported then False
             else if name_of imported \<noteq> importedName then False
             else True))"

definition isDefineRoute :: "NodePath \<Rightarrow> bool" where
  "isDefineRoute path =
     (if \<not> isIdentifier (node path) then False
      else
        (case getBinding (scope path) (name_of (node path)) of
           None \<Rightarrow> False
         | Some binding \<Rightarrow> isCanonicallyImportedAs binding ''react-router'' ''defineRoute''))"

section \<open>The guards\<close>

text \<open>
  The parser is Babel's; the model takes it as the parameter \<open>babel_parse\<close>.  The
  source's \<^verbatim>\<open>parse\<close> adds a file object for error rendering and returns the tree.
\<close>

definition parse :: "(string \<Rightarrow> error + node) \<Rightarrow> string \<Rightarrow> error + node" where
  "parse babel_parse source = babel_parse source"

text \<open>
  A visitor runs on the paths of its node type in traversal order; the first error
  ends the traversal.
\<close>

fun each :: "(NodePath \<Rightarrow> error + unit) \<Rightarrow> NodePath list \<Rightarrow> error + unit" where
  "each visit [] = Inr ()"
| "each visit (p # ps) = (case visit p of Inl e \<Rightarrow> Inl e | Inr u \<Rightarrow> each visit ps)"

definition identifiers :: "node \<Rightarrow> NodePath list" where
  "identifiers ast = filter (\<lambda>p. isIdentifier (node p)) (traverse ast)"

definition exportDefaultDeclarations :: "node \<Rightarrow> NodePath list" where
  "exportDefaultDeclarations ast =
     filter (\<lambda>p. isExportDefaultDeclaration (node p)) (traverse ast)"

definition assertNotImported_Identifier :: "NodePath \<Rightarrow> error + unit" where
  "assertNotImported_Identifier path =
     (if isDefineRoute path
      then Inl (CodeFrameError (loc path) DefineRouteOutsideRouteModules)
      else Inr ())"

definition assertNotImported :: "(string \<Rightarrow> error + node) \<Rightarrow> string \<Rightarrow> error + unit" where
  "assertNotImported babel_parse code =
     (case parse babel_parse code of
        Inl e \<Rightarrow> Inl e
      | Inr ast \<Rightarrow> each assertNotImported_Identifier (identifiers ast))"

definition assertDefineRoute_Identifier :: "NodePath \<Rightarrow> error + unit" where
  "assertDefineRoute_Identifier path =
     (if \<not> isDefineRoute path then Inr ()
      else if is_a isImportSpecifier (parent path) then Inr ()
      else if \<not> is_a isCallExpression (parent path)
        then Inl (CodeFrameError (loc path) DefineRouteMustFollowExportDefault)
      else if \<not> is_a isExportDefaultDeclaration (grandparent path)
        then Inl (CodeFrameError (loc path) DefineRouteMustFollowExportDefault)
      else Inr ())"

definition assertDefineRouteOnlyAfterExportDefault :: "node \<Rightarrow> error + unit" where
  "assertDefineRouteOnlyAfterExportDefault ast =
     each assertDefineRoute_Identifier (identifiers ast)"

section \<open>The schema matcher\<close>

text \<open>
  The analysis is a JavaScript object used as a record of paths: its own
  properties in creation order.  \<open>assign\<close> is \<^verbatim>\<open>analysis[key] = propertyPath\<close>: it
  overwrites the entry of a key that is present and appends one for a new key.
  Assigning the key \<^verbatim>\<open>__proto__\<close> replaces the object's prototype and creates no
  property.  \<^verbatim>\<open>Object.keys\<close> and \<^verbatim>\<open>Object.entries\<close> read the own properties.
  The prototype is then a path object, whose accessors a later assignment may
  reach; the properties of the analysis are therefore stated for object literals
  without the key \<^verbatim>\<open>__proto__\<close>.
\<close>

type_synonym Analysis = "(string \<times> NodePath) list"

definition assign :: "Analysis \<Rightarrow> string \<Rightarrow> NodePath \<Rightarrow> Analysis" where
  "assign analysis key propertyPath =
     (if key = ''__proto__'' then analysis else AList.update key propertyPath analysis)"

definition Object_keys :: "Analysis \<Rightarrow> string list" where
  "Object_keys analysis = map fst analysis"

definition Object_entries :: "Analysis \<Rightarrow> (string \<times> NodePath) list" where
  "Object_entries analysis = analysis"

text \<open>The loop over \<^verbatim>\<open>paramsPath.node.value.elements.entries()\<close>.\<close>

fun checkElements :: "NodePath \<Rightarrow> nat \<Rightarrow> node option list \<Rightarrow> error + unit" where
  "checkElements paramsPath i [] = Inr ()"
| "checkElements paramsPath i (element # elements) =
     (if \<not> is_a isStringLiteral element
      then Inl (CodeFrameError (loc paramsPath @ [Key ''value'', Idx ''elements'' i])
                  RouteParamMustBeLiteralString)
      else checkElements paramsPath (Suc i) elements)"

text \<open>
  The body of the loop of \<^verbatim>\<open>analyzeRoute\<close> up to the assignment: the checks on one
  property, in the order of the source, and the key it is stored under.
\<close>

fun analyzeProperty :: "NodePath \<Rightarrow> node \<Rightarrow> error + string" where
  "analyzeProperty propertyPath (ObjectProperty computed k v) =
     (if computed \<or> \<not> isIdentifier k
      then Inl (CodeFrameError (loc propertyPath) RouteCannotHaveComputedKeys)
      else if name_of k = ''params'' then
        (case v of
           ArrayExpression elements \<Rightarrow>
             (case checkElements propertyPath 0 elements of
                Inl e \<Rightarrow> Inl e
              | Inr u \<Rightarrow> Inr (name_of k))
         | _ \<Rightarrow> Inl (CodeFrameError (loc propertyPath) RouteParamsMustBeLiteralArray))
      else Inr (name_of k))"
| "analyzeProperty propertyPath (ObjectMethod computed k params body) =
     (if computed \<or> \<not> isIdentifier k
      then Inl (CodeFrameError (loc propertyPath) RouteCannotHaveComputedKeys)
      else if name_of k = ''params''
      then Inl (CodeFrameError (loc propertyPath) RouteParamsMustBeLiteralArray)
      else Inr (name_of k))"
| "analyzeProperty propertyPath property =
     Inl (CodeFrameError (loc propertyPath) PropertiesCannotBeSpread)"

text \<open>The loop over \<^verbatim>\<open>path.node.properties.entries()\<close>, from index \<open>i\<close>.\<close>

fun analyzeProperties ::
  "NodePath \<Rightarrow> nat \<Rightarrow> Analysis \<Rightarrow> node list \<Rightarrow> error + Analysis" where
  "analyzeProperties path i analysis [] = Inr analysis"
| "analyzeProperties path i analysis (property # properties) =
     (let propertyPath = get path (Idx ''properties'' i) property in
      case analyzeProperty propertyPath property of
        Inl e \<Rightarrow> Inl e
      | Inr k \<Rightarrow> analyzeProperties path (Suc i) (assign analysis k propertyPath) properties)"

definition analyzeRoute :: "NodePath \<Rightarrow> error + Analysis" where
  "analyzeRoute path =
     (case node path of
        ObjectExpression properties \<Rightarrow> analyzeProperties path 0 [] properties
      | _ \<Rightarrow> Inl TypeError)"

definition analyzeRouteExport :: "NodePath \<Rightarrow> error + Analysis" where
  "analyzeRouteExport path =
     (case node path of
        ExportDefaultDeclaration route \<Rightarrow>
          (let routePath = get path (Key ''declaration'') route in
           case route of
             ObjectExpression properties \<Rightarrow> analyzeRoute routePath
           | CallExpression callee arguments \<Rightarrow>
               if \<not> isDefineRoute (get routePath (Key ''callee'') callee)
               then Inl (CodeFrameError (loc routePath) DefaultExportMustBeObjectOrDefineRoute)
               else if length arguments \<noteq> 1
               then Inl (CodeFrameError (loc routePath) DefineRouteTakesOneArgument)
               else
                 (let arg = arguments ! 0;
                      argPath = get routePath (Idx ''arguments'' 0) arg
                  in if \<not> isObjectExpression arg
                     then Inl (CodeFrameError (loc argPath) DefineRouteArgumentMustBeObject)
                     else analyzeRoute argPath)
           | _ \<Rightarrow> Inl (CodeFrameError (loc routePath) DefaultExportMustBeObjectOrDefineRoute))
      | _ \<Rightarrow>
          Inl (CodeFrameError (loc path @ [Key ''declaration''])
                 DefaultExportMustBeObjectOrDefineRoute))"

section \<open>Listing the fields\<close>

text \<open>The visitor of \<^verbatim>\<open>parseFields\<close>: each default export overwrites
  the variable \<^verbatim>\<open>fields\<close>, here \<open>fs\<close>.\<close>

fun parseFields_ExportDefaultDeclaration ::
  "string list \<Rightarrow> NodePath list \<Rightarrow> error + string list" where
  "parseFields_ExportDefaultDeclaration fs [] = Inr fs"
| "parseFields_ExportDefaultDeclaration fs (path # paths) =
     (case analyzeRouteExport path of
        Inl e \<Rightarrow> Inl e
      | Inr analysis \<Rightarrow> parseFields_ExportDefaultDeclaration (Object_keys analysis) paths)"

definition parseFields :: "(string \<Rightarrow> error + node) \<Rightarrow> string \<Rightarrow> error + string list" where
  "parseFields babel_parse code =
     (case parse babel_parse code of
        Inl e \<Rightarrow> Inl e
      | Inr ast \<Rightarrow>
          (case assertDefineRouteOnlyAfterExportDefault ast of
             Inl e \<Rightarrow> Inl e
           | Inr u \<Rightarrow> parseFields_ExportDefaultDeclaration [] (exportDefaultDeclarations ast)))"

section \<open>The transformation\<close>

text \<open>
  \<^verbatim>\<open>path.remove()\<close> on every marked path.  \<open>prune ms l n\<close> is the node \<open>n\<close>, found at
  location \<open>l\<close>, without the members of its lists whose location is in \<open>ms\<close>.
\<close>

definition kept :: "loc list \<Rightarrow> loc \<Rightarrow> string \<Rightarrow> node list \<Rightarrow> (step \<times> node) list" where
  "kept ms l k ns = filter (\<lambda>(s, n). l @ [s] \<notin> set ms) (indexed k ns)"

lemma size_kept: "(s, c) \<in> set (kept ms l k ns) \<Longrightarrow> size c < Suc (size_list size ns)"
  by (auto simp: kept_def dest: size_indexed)

lemma size_element:
  assumes "(i, e) \<in> set (enumerate 0 es)" and "x \<in> set_option e"
  shows "size x < Suc (size_list (size_option size) es)"
proof -
  from assms have "i < length es" and "es ! i = Some x"
    by (auto simp: in_set_enumerate_eq)
  then have "Some x \<in> set es"
    by (metis nth_mem)
  then have "size_option size (Some x) \<le> size_list (size_option size) es"
    by (rule size_list_estimation') simp
  then show ?thesis by simp
qed

function prune :: "loc list \<Rightarrow> loc \<Rightarrow> node \<Rightarrow> node" where
  "prune ms l (File p) = File (prune ms (l @ [Key ''program'']) p)"
| "prune ms l (Program body) =
     Program (map (\<lambda>(s, n). prune ms (l @ [s]) n) (kept ms l ''body'' body))"
| "prune ms l (ImportDeclaration specifiers source) =
     ImportDeclaration
       (map (\<lambda>(s, n). prune ms (l @ [s]) n) (kept ms l ''specifiers'' specifiers)) source"
| "prune ms l (ImportSpecifier imported local) =
     ImportSpecifier (prune ms (l @ [Key ''imported'']) imported)
       (prune ms (l @ [Key ''local'']) local)"
| "prune ms l (ImportDefaultSpecifier local) =
     ImportDefaultSpecifier (prune ms (l @ [Key ''local'']) local)"
| "prune ms l (ImportNamespaceSpecifier local) =
     ImportNamespaceSpecifier (prune ms (l @ [Key ''local'']) local)"
| "prune ms l (ExportDefaultDeclaration d) =
     ExportDefaultDeclaration (prune ms (l @ [Key ''declaration'']) d)"
| "prune ms l (VariableDeclaration ds) =
     VariableDeclaration (map (\<lambda>(s, n). prune ms (l @ [s]) n) (kept ms l ''declarations'' ds))"
| "prune ms l (VariableDeclarator i init) =
     VariableDeclarator (prune ms (l @ [Key ''id'']) i)
       (map_option (prune ms (l @ [Key ''init''])) init)"
| "prune ms l (FunctionDeclaration i ps b) =
     FunctionDeclaration (prune ms (l @ [Key ''id'']) i)
       (map (\<lambda>(s, n). prune ms (l @ [s]) n) (kept ms l ''params'' ps))
       (prune ms (l @ [Key ''body'']) b)"
| "prune ms l (ExpressionStatement e) =
     ExpressionStatement (prune ms (l @ [Key ''expression'']) e)"
| "prune ms l (ReturnStatement a) =
     ReturnStatement (map_option (prune ms (l @ [Key ''argument''])) a)"
| "prune ms l (BlockStatement body) =
     BlockStatement (map (\<lambda>(s, n). prune ms (l @ [s]) n) (kept ms l ''body'' body))"
| "prune ms l (Identifier name) = Identifier name"
| "prune ms l (StringLiteral v) = StringLiteral v"
| "prune ms l (NumericLiteral v) = NumericLiteral v"
| "prune ms l NullLiteral = NullLiteral"
| "prune ms l (ArrayExpression es) =
     ArrayExpression
       (map (\<lambda>(i, e). map_option (prune ms (l @ [Idx ''elements'' i])) e) (enumerate 0 es))"
| "prune ms l (ObjectExpression ps) =
     ObjectExpression (map (\<lambda>(s, n). prune ms (l @ [s]) n) (kept ms l ''properties'' ps))"
| "prune ms l (ObjectProperty c k v) =
     ObjectProperty c (prune ms (l @ [Key ''key'']) k) (prune ms (l @ [Key ''value'']) v)"
| "prune ms l (ObjectMethod c k ps b) =
     ObjectMethod c (prune ms (l @ [Key ''key'']) k)
       (map (\<lambda>(s, n). prune ms (l @ [s]) n) (kept ms l ''params'' ps))
       (prune ms (l @ [Key ''body'']) b)"
| "prune ms l (SpreadElement a) = SpreadElement (prune ms (l @ [Key ''argument'']) a)"
| "prune ms l (CallExpression c as) =
     CallExpression (prune ms (l @ [Key ''callee'']) c)
       (map (\<lambda>(s, n). prune ms (l @ [s]) n) (kept ms l ''arguments'' as))"
| "prune ms l (MemberExpression ob p c) =
     MemberExpression (prune ms (l @ [Key ''object'']) ob)
       (prune ms (l @ [Key ''property'']) p) c"
| "prune ms l (ArrowFunctionExpression ps b) =
     ArrowFunctionExpression (map (\<lambda>(s, n). prune ms (l @ [s]) n) (kept ms l ''params'' ps))
       (prune ms (l @ [Key ''body'']) b)"
  by pat_completeness auto
termination
  by (relation "measure (\<lambda>(ms, l, n). size n)") (auto dest: size_kept size_element)

definition remove :: "NodePath list \<Rightarrow> node \<Rightarrow> node" where
  "remove markedForRemoval ast = prune (map loc markedForRemoval) [] ast"

text \<open>
  The visitor of \<^verbatim>\<open>transform\<close>: the paths of the fields \<^verbatim>\<open>headers\<close>,
  \<^verbatim>\<open>serverLoader\<close> and \<^verbatim>\<open>serverAction\<close> of every analysed default export are pushed
  on \<^verbatim>\<open>markedForRemoval\<close>.
\<close>

fun transform_ExportDefaultDeclaration ::
  "NodePath list \<Rightarrow> NodePath list \<Rightarrow> error + NodePath list" where
  "transform_ExportDefaultDeclaration markedForRemoval [] = Inr markedForRemoval"
| "transform_ExportDefaultDeclaration markedForRemoval (path # paths) =
     (case analyzeRouteExport path of
        Inl e \<Rightarrow> Inl e
      | Inr analysis \<Rightarrow>
          transform_ExportDefaultDeclaration
            (markedForRemoval @
               map snd
                 (filter
                    (\<lambda>(k, fieldPath). k \<in> set [''headers'', ''serverLoader'', ''serverAction''])
                    (Object_entries analysis)))
            paths)"

text \<open>
  The tree handed to dead-code elimination: the guard, the marking and the removal
  of \<^verbatim>\<open>transform\<close>.
\<close>

definition strip :: "node \<Rightarrow> error + node" where
  "strip ast =
     (case assertDefineRouteOnlyAfterExportDefault ast of
        Inl e \<Rightarrow> Inl e
      | Inr u \<Rightarrow>
          (case transform_ExportDefaultDeclaration [] (exportDefaultDeclarations ast) of
             Inl e \<Rightarrow> Inl e
           | Inr markedForRemoval \<Rightarrow> Inr (remove markedForRemoval ast)))"

text \<open>
  \<^verbatim>\<open>transform\<close> returns the code itself for a server build and the generator's
  result otherwise.  \<^verbatim>\<open>findReferencedIdentifiers\<close> and \<^verbatim>\<open>deadCodeElimination\<close>
  (package \<^verbatim>\<open>babel-dead-code-elimination\<close>) and Babel's \<^verbatim>\<open>generate\<close> are parameters.
  The option \<^verbatim>\<open>ssr\<close> may be absent; \<open>i\<close> is the module identifier \<^verbatim>\<open>id\<close>.
\<close>

datatype 'g outcome = Source string | Generated 'g

definition transform ::
  "(string \<Rightarrow> error + node) \<Rightarrow> (node \<Rightarrow> 'r) \<Rightarrow> (node \<Rightarrow> 'r \<Rightarrow> node) \<Rightarrow>
   (node \<Rightarrow> string \<Rightarrow> string \<Rightarrow> 'g) \<Rightarrow> string \<Rightarrow> string \<Rightarrow> bool option \<Rightarrow> error + 'g outcome" where
  "transform babel_parse findReferencedIdentifiers deadCodeElimination generate code i ssr =
     (if ssr = Some True then Inr (Source code)
      else
        (case parse babel_parse code of
           Inl e \<Rightarrow> Inl e
         | Inr ast \<Rightarrow>
             (let refs = findReferencedIdentifiers ast in
              case strip ast of
                Inl e \<Rightarrow> Inl e
              | Inr ast' \<Rightarrow> Inr (Generated (generate (deadCodeElimination ast' refs) i code)))))"

section \<open>Notions the properties are stated with\<close>

text \<open>
  \<^verbatim>\<open>property.key.name\<close>, the key a property is stored under once its checks have
  passed.
\<close>

fun key_name :: "node \<Rightarrow> string" where
  "key_name (ObjectProperty computed k v) = name_of k"
| "key_name (ObjectMethod computed k params body) = name_of k"
| "key_name n = []"

fun properties_of :: "node \<Rightarrow> node list" where
  "properties_of (ObjectExpression properties) = properties"
| "properties_of n = []"

text \<open>
  The properties of the object literal a default export declares, directly or as
  the single argument of a call: the list \<^verbatim>\<open>analyzeRoute\<close> runs over.
\<close>

definition exported_properties :: "node \<Rightarrow> node list" where
  "exported_properties n =
     (case n of
        ExportDefaultDeclaration route \<Rightarrow>
          (case route of
             ObjectExpression properties \<Rightarrow> properties
           | CallExpression callee arguments \<Rightarrow>
               (case arguments of [arg] \<Rightarrow> properties_of arg | _ \<Rightarrow> [])
           | _ \<Rightarrow> [])
      | _ \<Rightarrow> [])"

text \<open>The keys of the source's type \<^verbatim>\<open>Analysis\<close>.\<close>

definition Analysis_fields :: "string list" where
  "Analysis_fields =
     [''params'', ''links'', ''HydrateFallback'', ''serverLoader'', ''clientLoader'',
      ''serverAction'', ''clientAction'', ''meta'', ''Component'', ''ErrorBoundary'',
      ''handle'']"

text \<open>
  A parser given by one of its values: \<open>reads text ast\<close> parses \<open>text\<close> to \<open>ast\<close> and
  rejects every other text.
\<close>

definition reads :: "string \<Rightarrow> node \<Rightarrow> string \<Rightarrow> error + node" where
  "reads text ast source = (if source = text then Inr ast else Inl (SyntaxError source))"

text \<open>A path to a node taken by itself, outside any module.\<close>

definition object_path :: "node \<Rightarrow> NodePath" where
  "object_path n = \<lparr>node = n, parent = None, grandparent = None, scope = [], loc = []\<rparr>"

text \<open>The properties of \<^verbatim>\<open>{ serverLoader: 1, serverLoader: 2 }\<close>.\<close>

definition duplicate_serverLoader :: "node list" where
  "duplicate_serverLoader =
     [ObjectProperty False (Identifier ''serverLoader'') (NumericLiteral 1),
      ObjectProperty False (Identifier ''serverLoader'') (NumericLiteral 2)]"

text \<open>
  The properties of \<^verbatim>\<open>{ Component: null, params: "id" }\<close>, of
  \<^verbatim>\<open>{ params: ["id", lang] }\<close> and of \<^verbatim>\<open>{ params: ["id", "lang"] }\<close>.
\<close>

definition params_not_array :: "node list" where
  "params_not_array =
     [ObjectProperty False (Identifier ''Component'') NullLiteral,
      ObjectProperty False (Identifier ''params'') (StringLiteral ''id'')]"

definition params_not_strings :: "node list" where
  "params_not_strings =
     [ObjectProperty False (Identifier ''params'')
        (ArrayExpression [Some (StringLiteral ''id''), Some (Identifier ''lang'')])]"

definition params_strings :: "node list" where
  "params_strings =
     [ObjectProperty False (Identifier ''params'')
        (ArrayExpression [Some (StringLiteral ''id''), Some (StringLiteral ''lang'')])]"

text \<open>\<^verbatim>\<open>import defineRoute from "react-router"; export default defineRoute({})\<close>\<close>

definition default_import_route :: node where
  "default_import_route =
     File (Program
       [ImportDeclaration [ImportDefaultSpecifier (Identifier ''defineRoute'')] ''react-router'',
        ExportDefaultDeclaration
          (CallExpression (Identifier ''defineRoute'') [ObjectExpression []])])"

text \<open>\<^verbatim>\<open>const x = 1;\<close>\<close>

definition no_default_export :: node where
  "no_default_export =
     File (Program [VariableDeclaration [VariableDeclarator (Identifier ''x'') (Some (NumericLiteral 1))]])"

text \<open>\<^verbatim>\<open>export default { foo: 1 }\<close>\<close>

definition unknown_field :: node where
  "unknown_field =
     File (Program
       [ExportDefaultDeclaration
          (ObjectExpression [ObjectProperty False (Identifier ''foo'') (NumericLiteral 1)])])"

text \<open>
  \<^verbatim>\<open>import { defineRoute } from "react-router";
  export default defineRoute({ params: ["id"], serverLoader: () => {}, Component: () => null })\<close>
\<close>

definition route_module :: node where
  "route_module =
     File (Program
       [ImportDeclaration
          [ImportSpecifier (Identifier ''defineRoute'') (Identifier ''defineRoute'')]
          ''react-router'',
        ExportDefaultDeclaration
          (CallExpression (Identifier ''defineRoute'')
             [ObjectExpression
                [ObjectProperty False (Identifier ''params'')
                   (ArrayExpression [Some (StringLiteral ''id'')]),
                 ObjectProperty False (Identifier ''serverLoader'')
                   (ArrowFunctionExpression [] (BlockStatement [])),
                 ObjectProperty False (Identifier ''Component'')
                   (ArrowFunctionExpression [] NullLiteral)]])])"

fun isProgram :: "node \<Rightarrow> bool" where
  "isProgram (Program body) = True"
| "isProgram _ = False"

text \<open>The nodes of a tree, in traversal order.\<close>

definition subnodes :: "node \<Rightarrow> node list" where
  "subnodes n = map node (walk (object_path n))"

text \<open>
  The imports that \<open>isCanonicallyImportedAs\<close> recognises: \<open>imports_defineRoute\<close>
  holds of a module when one of its statements is an import declaration from
  \<^verbatim>\<open>react-router\<close> with a specifier whose imported name is the \<^emph>\<open>identifier\<close>
  \<^verbatim>\<open>defineRoute\<close>, under any local name.
\<close>

fun names_factory :: "node \<Rightarrow> bool" where
  "names_factory (ImportSpecifier imported local) =
     (isIdentifier imported \<and> name_of imported = ''defineRoute'' \<and> isIdentifier local)"
| "names_factory n = False"

fun imports_factory :: "node \<Rightarrow> bool" where
  "imports_factory (ImportDeclaration specifiers source) =
     (source = ''react-router'' \<and> list_ex names_factory specifiers)"
| "imports_factory n = False"

definition imports_defineRoute :: "node list \<Rightarrow> bool" where
  "imports_defineRoute body = list_ex imports_factory body"

text \<open>
  The factory imported or bound at all, in the words of the specification: some
  specifier of an import declaration from \<^verbatim>\<open>react-router\<close> has the external name
  \<^verbatim>\<open>defineRoute\<close>.  The external name of a specifier is written as an identifier or
  as a string literal (\<^verbatim>\<open>import { "defineRoute" as dr } from "react-router"\<close>).
\<close>

fun external_name :: "node \<Rightarrow> string option" where
  "external_name (Identifier name) = Some name"
| "external_name (StringLiteral v) = Some v"
| "external_name n = None"

fun binds_factory :: "node \<Rightarrow> bool" where
  "binds_factory (ImportSpecifier imported local) =
     (external_name imported = Some ''defineRoute'' \<and> isIdentifier local)"
| "binds_factory n = False"

fun binds_factory_in :: "node \<Rightarrow> bool" where
  "binds_factory_in (ImportDeclaration specifiers source) =
     (source = ''react-router'' \<and> list_ex binds_factory specifiers)"
| "binds_factory_in n = False"

definition factory_bound :: "node list \<Rightarrow> bool" where
  "factory_bound body = list_ex binds_factory_in body"

text \<open>
  What the parser guarantees of a module: inside the statements of the program
  there is no program and no import declaration.
\<close>

definition inner :: "node \<Rightarrow> bool" where
  "inner n = (\<not> isProgram n \<and> \<not> isImportDeclaration n)"

definition top_level :: "node list \<Rightarrow> bool" where
  "top_level body =
     list_all (\<lambda>st. \<not> isProgram st \<and>
                list_all (\<lambda>(s, c). list_all inner (subnodes c)) (children st)) body"

text \<open>
  The frames met below the program: a frame that binds no name to an import, or
  the frame of the program itself.
\<close>

definition no_import_binding :: "frame \<Rightarrow> bool" where
  "no_import_binding f = (\<forall>(x, b)\<in>set f. \<not> isImportDeclaration (binding_parent b))"

definition good_scope :: "node list \<Rightarrow> scope \<Rightarrow> bool" where
  "good_scope body sc = (\<forall>f\<in>set sc. no_import_binding f \<or> f = frame_of (Program body))"

text \<open>The path of the program in its file.\<close>

definition program_path :: "node list \<Rightarrow> NodePath" where
  "program_path body =
     get \<lparr>node = File (Program body), parent = None, grandparent = None, scope = [], loc = []\<rparr>
       (Key ''program'') (Program body)"

text \<open>\<^verbatim>\<open>import { defineRoute } from "react-router"; const x = 1;\<close>\<close>

definition unused_import_body :: "node list" where
  "unused_import_body =
     [ImportDeclaration
        [ImportSpecifier (Identifier ''defineRoute'') (Identifier ''defineRoute'')]
        ''react-router'',
      VariableDeclaration [VariableDeclarator (Identifier ''x'') (Some (NumericLiteral 1))]]"

text \<open>\<^verbatim>\<open>import { "defineRoute" as dr } from "react-router"; dr({});\<close>\<close>

definition string_named_import_body :: "node list" where
  "string_named_import_body =
     [ImportDeclaration
        [ImportSpecifier (StringLiteral ''defineRoute'') (Identifier ''dr'')]
        ''react-router'',
      ExpressionStatement (CallExpression (Identifier ''dr'') [ObjectExpression []])]"

text \<open>The properties of \<^verbatim>\<open>{ __proto__() {}, __proto__() {} }\<close>.\<close>

definition duplicate_proto :: "node list" where
  "duplicate_proto =
     [ObjectMethod False (Identifier ''__proto__'') [] (BlockStatement []),
      ObjectMethod False (Identifier ''__proto__'') [] (BlockStatement [])]"

text \<open>\<^verbatim>\<open>const x = 1;\<close>, as a list of statements.\<close>

definition plain_body :: "node list" where
  "plain_body =
     [VariableDeclaration [VariableDeclarator (Identifier ''x'') (Some (NumericLiteral 1))]]"

text \<open>\<^verbatim>\<open>export default { serverLoader: 1, serverLoader: 2 }\<close>\<close>

definition duplicate_serverLoader_module :: node where
  "duplicate_serverLoader_module =
     File (Program [ExportDefaultDeclaration (ObjectExpression duplicate_serverLoader)])"

text \<open>\<^verbatim>\<open>import { defineRoute } from "react-router"; export default foo(defineRoute);\<close>\<close>

definition factory_as_argument :: node where
  "factory_as_argument =
     File (Program
       [ImportDeclaration
          [ImportSpecifier (Identifier ''defineRoute'') (Identifier ''defineRoute'')]
          ''react-router'',
        ExportDefaultDeclaration
          (CallExpression (Identifier ''foo'') [Identifier ''defineRoute''])])"

section \<open>The loop of the schema matcher\<close>

lemma analyzeProperty_key: "analyzeProperty pp p = Inr k \<Longrightarrow> k = key_name p"
  by (cases p) (auto split: if_splits node.splits sum.splits)

lemma remdups_snoc: "remdups (ys @ [x]) = filter (\<lambda>y. y \<noteq> x) (remdups ys) @ [x]"
  by (induction ys) auto

lemma first_occurrence_Cons:
  "rev (remdups (rev (x # xs))) = x # filter (\<lambda>y. y \<noteq> x) (rev (remdups (rev xs)))"
  by (simp add: remdups_snoc rev_filter)

lemma analyzeProperties_keys:
  assumes "analyzeProperties path i a ps = Inr a'" and "''__proto__'' \<notin> set (map key_name ps)"
  shows "map fst a' = map fst a @ filter (\<lambda>k. k \<notin> set (map fst a)) (rev (remdups (rev (map key_name ps))))"
  using assms
proof (induction ps arbitrary: i a)
  case Nil
  then show ?case by simp
next
  case (Cons p ps)
  let ?pp = "get path (Idx ''properties'' i) p"
  let ?fo = "rev (remdups (rev (map key_name ps)))"
  from Cons.prems(1) obtain k where k: "analyzeProperty ?pp p = Inr k"
    and rest: "analyzeProperties path (Suc i) (assign a k ?pp) ps = Inr a'"
    by (auto simp: Let_def split: sum.splits)
  from k have kn: "k = key_name p" by (rule analyzeProperty_key)
  with Cons.prems(2) have np: "k \<noteq> ''__proto__''" by auto
  from Cons.prems(2) have "''__proto__'' \<notin> set (map key_name ps)" by simp
  from Cons.IH[OF rest this] np
  have IH: "map fst a' = map fst (AList.update k ?pp a) @
      filter (\<lambda>x. x \<notin> set (map fst (AList.update k ?pp a))) ?fo"
    by (simp add: assign_def)
  have fo: "rev (remdups (rev (map key_name (p # ps)))) = k # filter (\<lambda>y. y \<noteq> k) ?fo"
    using kn first_occurrence_Cons[of "key_name p" "map key_name ps"] by simp
  show ?case
  proof (cases "k \<in> set (map fst a)")
    case True
    then have "filter (\<lambda>x. x \<notin> set (map fst a)) (filter (\<lambda>y. y \<noteq> k) ?fo)
        = filter (\<lambda>x. x \<notin> set (map fst a)) ?fo"
      by (auto simp: filter_filter intro!: filter_cong)
    with True IH show ?thesis
      unfolding fo by (simp add: update_keys)
  next
    case False
    then have "filter (\<lambda>x. x \<notin> set (map fst a)) (filter (\<lambda>y. y \<noteq> k) ?fo)
        = filter (\<lambda>x. x \<notin> set (map fst a @ [k])) ?fo"
      by (auto simp: filter_filter intro!: filter_cong)
    with False IH show ?thesis
      unfolding fo by (simp add: update_keys)
  qed
qed

lemma analyzeProperties_other:
  assumes "analyzeProperties path i a ps = Inr a'" and "k \<notin> set (map key_name ps)"
  shows "map_of a' k = map_of a k"
  using assms
proof (induction ps arbitrary: i a)
  case Nil
  then show ?case by simp
next
  case (Cons p ps)
  let ?pp = "get path (Idx ''properties'' i) p"
  from Cons.prems(1) obtain k' where k': "analyzeProperty ?pp p = Inr k'"
    and rest: "analyzeProperties path (Suc i) (assign a k' ?pp) ps = Inr a'"
    by (auto simp: Let_def split: sum.splits)
  from k' have "k' = key_name p" by (rule analyzeProperty_key)
  with Cons.prems(2) have "k' \<noteq> k" by auto
  moreover from Cons.prems(2) have "k \<notin> set (map key_name ps)" by simp
  ultimately show ?case
    using Cons.IH[OF rest] by (simp add: assign_def update_conv')
qed

lemma analyzeProperties_last:
  assumes "analyzeProperties path i a ps = Inr a'" and "j < length ps"
    and "key_name (ps ! j) = k" and "k \<noteq> ''__proto__''"
    and "\<forall>j'. j < j' \<and> j' < length ps \<longrightarrow> key_name (ps ! j') \<noteq> k"
  shows "map_of a' k = Some (get path (Idx ''properties'' (i + j)) (ps ! j))"
  using assms
proof (induction ps arbitrary: i a j)
  case Nil
  then show ?case by simp
next
  case (Cons p ps)
  let ?pp = "get path (Idx ''properties'' i) p"
  from Cons.prems(1) obtain k' where k': "analyzeProperty ?pp p = Inr k'"
    and rest: "analyzeProperties path (Suc i) (assign a k' ?pp) ps = Inr a'"
    by (auto simp: Let_def split: sum.splits)
  from k' have kn: "k' = key_name p" by (rule analyzeProperty_key)
  show ?case
  proof (cases j)
    case 0
    with Cons.prems(3) kn have kk: "k' = k" by simp
    have "k \<notin> set (map key_name ps)"
    proof
      assume "k \<in> set (map key_name ps)"
      then obtain m where "m < length ps" "key_name (ps ! m) = k"
        by (auto simp: in_set_conv_nth)
      with Cons.prems(5) 0 show False
        by (auto dest!: spec[of _ "Suc m"])
    qed
    from analyzeProperties_other[OF rest this] kk Cons.prems(4) 0 show ?thesis
      by (simp add: assign_def update_conv')
  next
    case (Suc j')
    with Cons.prems(2,3) have a: "j' < length ps" "key_name (ps ! j') = k"
      by auto
    have b: "\<forall>j''. j' < j'' \<and> j'' < length ps \<longrightarrow> key_name (ps ! j'') \<noteq> k"
    proof (intro allI impI)
      fix j'' assume "j' < j'' \<and> j'' < length ps"
      with Cons.prems(5) Suc show "key_name (ps ! j'') \<noteq> k"
        by (auto dest!: spec[of _ "Suc j''"])
    qed
    from Cons.IH[OF rest a Cons.prems(4) b] Suc show ?thesis by simp
  qed
qed

lemma analyzeProperties_append:
  "analyzeProperties path i a (xs @ ys) =
     (case analyzeProperties path i a xs of
        Inl e \<Rightarrow> Inl e
      | Inr a' \<Rightarrow> analyzeProperties path (i + length xs) a' ys)"
  by (induction xs arbitrary: i a) (auto simp: Let_def split: sum.splits)

lemma analyzeProperties_succeeds:
  "(\<exists>a'. analyzeProperties path i a ps = Inr a') \<longleftrightarrow>
   (\<forall>j<length ps. \<exists>k.
      analyzeProperty (get path (Idx ''properties'' (i + j)) (ps ! j)) (ps ! j) = Inr k)"
proof (induction ps arbitrary: i a)
  case Nil
  then show ?case by simp
next
  case (Cons p ps)
  let ?pp = "get path (Idx ''properties'' i) p"
  show ?case
  proof (cases "analyzeProperty ?pp p")
    case (Inl e)
    then have "\<not> (\<forall>j<length (p # ps). \<exists>k.
      analyzeProperty (get path (Idx ''properties'' (i + j)) ((p # ps) ! j)) ((p # ps) ! j) = Inr k)"
      by (auto intro!: exI[of _ 0])
    with Inl show ?thesis by (simp add: Let_def)
  next
    case (Inr k)
    have "(\<forall>j<length (p # ps). \<exists>k.
        analyzeProperty (get path (Idx ''properties'' (i + j)) ((p # ps) ! j)) ((p # ps) ! j) = Inr k)
      \<longleftrightarrow> (\<forall>j<length ps. \<exists>k.
        analyzeProperty (get path (Idx ''properties'' (Suc i + j)) (ps ! j)) (ps ! j) = Inr k)"
      using Inr by (simp add: All_less_Suc2)
    with Inr Cons.IH[of "Suc i" "assign a k ?pp"] show ?thesis
      by (simp add: Let_def)
  qed
qed

lemma checkElements_Inr:
  "checkElements pp i es = Inr u \<longleftrightarrow> (\<forall>e\<in>set es. \<exists>s. e = Some (StringLiteral s))"
proof (induction es arbitrary: i)
  case Nil
  then show ?case by simp
next
  case (Cons e es)
  have "is_a isStringLiteral e \<longleftrightarrow> (\<exists>s. e = Some (StringLiteral s))"
    by (cases e; cases "the e") auto
  with Cons show ?case by auto
qed

lemma checkElements_first:
  assumes "\<forall>e\<in>set es. \<exists>s. e = Some (StringLiteral s)" and "\<not> is_a isStringLiteral e"
  shows "checkElements pp i (es @ e # es') =
    Inl (CodeFrameError (loc pp @ [Key ''value'', Idx ''elements'' (i + length es)])
           RouteParamMustBeLiteralString)"
  using assms by (induction es arbitrary: i) auto

lemma analyzeProperty_accepts:
  assumes "analyzeProperty pp p = Inr k"
  shows "(\<exists>v. p = ObjectProperty False (Identifier k) v) \<or>
         (\<exists>ps b. p = ObjectMethod False (Identifier k) ps b)"
proof (cases p)
  case (ObjectProperty c key v)
  with assms show ?thesis
    by (cases key) (auto split: if_splits node.splits sum.splits)
next
  case (ObjectMethod c key ps b)
  with assms show ?thesis
    by (cases key) (auto split: if_splits)
qed (use assms in auto)

lemma analyzeProperty_params:
  assumes "analyzeProperty pp p = Inr k" and "key_name p = ''params''"
  shows "\<exists>key elements. p = ObjectProperty False key (ArrayExpression elements) \<and>
           (\<forall>e\<in>set elements. \<exists>s. e = Some (StringLiteral s))"
proof (cases p)
  case (ObjectProperty c key v)
  with assms show ?thesis
    by (cases v) (auto split: if_splits sum.splits simp: checkElements_Inr)
next
  case (ObjectMethod c key ps b)
  with assms show ?thesis
    by (auto split: if_splits)
qed (use assms in auto)

lemma analyzeProperties_each:
  assumes "analyzeProperties path i a ps = Inr a'" and "p \<in> set ps"
  shows "\<exists>pp k. analyzeProperty pp p = Inr k"
proof -
  from assms(2) obtain j where j: "j < length ps" "ps ! j = p"
    by (auto simp: in_set_conv_nth)
  from assms(1) have "\<exists>a'. analyzeProperties path i a ps = Inr a'" by blast
  with j show ?thesis
    unfolding analyzeProperties_succeeds by blast
qed

section \<open>The canonical import, characterised\<close>

lemma isCanonicallyImportedAs_iff:
  "isCanonicallyImportedAs binding sourceName importedName \<longleftrightarrow>
     (\<exists>specifiers local.
        binding_parent binding = ImportDeclaration specifiers sourceName \<and>
        binding_node binding = ImportSpecifier (Identifier importedName) local)"
proof (cases "binding_parent binding")
  case (ImportDeclaration specifiers source)
  show ?thesis
  proof (cases "binding_node binding")
    case (ImportSpecifier imported local)
    with ImportDeclaration show ?thesis
      by (cases imported) (auto simp: isCanonicallyImportedAs_def)
  qed (use ImportDeclaration in \<open>auto simp: isCanonicallyImportedAs_def\<close>)
qed (auto simp: isCanonicallyImportedAs_def)

lemma isDefineRoute_iff:
  "isDefineRoute p \<longleftrightarrow>
     (\<exists>name binding specifiers local.
        node p = Identifier name \<and> getBinding (scope p) name = Some binding \<and>
        binding_parent binding = ImportDeclaration specifiers ''react-router'' \<and>
        binding_node binding = ImportSpecifier (Identifier ''defineRoute'') local)"
  by (cases "node p") (auto simp: isDefineRoute_def isCanonicallyImportedAs_iff split: option.splits)

section \<open>Removing nothing\<close>

lemma map_indexed:
  assumes "\<And>s n. (s, n) \<in> set (indexed k ns) \<Longrightarrow> f s n = n"
  shows "map (\<lambda>(s, n). f s n) (indexed k ns) = ns"
proof -
  have "map (\<lambda>(s, n). f s n) (indexed k ns) = map snd (indexed k ns)"
    using assms by (intro map_cong) auto
  also have "\<dots> = ns"
    by (simp add: indexed_def comp_def case_prod_unfold)
  finally show ?thesis .
qed

lemma kept_nothing: "kept [] l k ns = indexed k ns"
  by (simp add: kept_def case_prod_unfold)

lemma map_option_same: "(\<And>a. x = Some a \<Longrightarrow> f a = a) \<Longrightarrow> map_option f x = x"
  by (cases x) auto

lemma prune_nothing: "prune [] l n = n"
proof (induction "[]::loc list" l n rule: prune.induct)
  case (18 l es)
  have "map (\<lambda>(i, e). map_option (prune [] (l @ [Idx ''elements'' i])) e) (enumerate 0 es)
      = map snd (enumerate 0 es)"
  proof (intro map_cong refl)
    fix x assume x: "x \<in> set (enumerate 0 es)"
    obtain i e where ie: "x = (i, e)" by (cases x)
    with 18 x show "(case x of (i, e) \<Rightarrow> map_option (prune [] (l @ [Idx ''elements'' i])) e) = snd x"
      by (cases e) auto
  qed
  then show ?case by simp
qed (simp_all add: kept_nothing map_indexed map_option_same)

section \<open>The fields of the last default export\<close>

lemma parseFields_last:
  assumes "parseFields_ExportDefaultDeclaration fs (paths @ [path]) = Inr fs'"
  shows "\<exists>analysis. analyzeRouteExport path = Inr analysis \<and> fs' = Object_keys analysis"
  using assms by (induction paths arbitrary: fs) (auto split: sum.splits)

lemma analyzeRouteExport_properties:
  assumes "analyzeRouteExport path = Inr analysis"
  shows "\<exists>objectPath.
           analyzeProperties objectPath 0 [] (exported_properties (node path)) = Inr analysis"
proof (cases "node path")
  case (ExportDefaultDeclaration route)
  show ?thesis
  proof (cases route)
    case (ObjectExpression properties)
    with ExportDefaultDeclaration assms show ?thesis
      by (auto simp: analyzeRouteExport_def analyzeRoute_def exported_properties_def get_def)
  next
    case (CallExpression callee arguments)
    with ExportDefaultDeclaration assms
    have len: "length arguments = 1" and obj: "isObjectExpression (arguments ! 0)"
      and run: "analyzeRoute (get (get path (Key ''declaration'') route) (Idx ''arguments'' 0)
                  (arguments ! 0)) = Inr analysis"
      by (auto simp: analyzeRouteExport_def Let_def split: if_splits)
    from len obtain arg where args: "arguments = [arg]"
      by (cases arguments) auto
    with obj obtain properties where arg: "arg = ObjectExpression properties"
      by (cases arg) auto
    with run args have "analyzeProperties
        (get (get path (Key ''declaration'') route) (Idx ''arguments'' 0) arg) 0 [] properties
        = Inr analysis"
      by (simp add: analyzeRoute_def get_def)
    with ExportDefaultDeclaration CallExpression args arg show ?thesis
      by (auto simp: exported_properties_def)
  qed (use ExportDefaultDeclaration assms in \<open>auto simp: analyzeRouteExport_def Let_def\<close>)
qed (use assms in \<open>auto simp: analyzeRouteExport_def\<close>)

section \<open>The paths of a traversal\<close>

lemma walk_self: "p \<in> set (walk p)"
  by (subst walk.simps) simp

lemma walk_sub: "(s, c) \<in> set (children (node p)) \<Longrightarrow> set (walk (get p s c)) \<subseteq> set (walk p)"
  by (subst (2) walk.simps) auto

lemma walk_cases:
  assumes "q \<in> set (walk p)"
  obtains "q = p" | s c where "(s, c) \<in> set (children (node p))" "q \<in> set (walk (get p s c))"
  using assms by (subst (asm) walk.simps) auto

lemma walk_child_mem:
  "q \<in> set (walk p) \<Longrightarrow> (s, c) \<in> set (children (node q)) \<Longrightarrow> get q s c \<in> set (walk p)"
proof (induction p rule: walk.induct)
  case (1 p)
  from "1.prems"(1) show ?case
  proof (cases rule: walk_cases)
    case 1
    with "1.prems"(2) walk_self[of "get p s c"] walk_sub[of s c p] show ?thesis by auto
  next
    case (2 s' c')
    from "1.IH"[OF 2(1) refl 2(2) "1.prems"(2)] walk_sub[OF 2(1)] show ?thesis by auto
  qed
qed

lemma node_get [simp]: "node (get p s c) = c"
  by (simp add: get_def)

lemma nodes_walk_unfold:
  "map node (walk p) =
     node p # concat (map (\<lambda>x. map node (case x of (s, c) \<Rightarrow> walk (get p s c)))
                       (children (node p)))"
  by (subst walk.simps) (simp only: list.map map_concat map_map comp_def)

lemma nodes_walk: "node p = node p' \<Longrightarrow> map node (walk p) = map node (walk p')"
proof (induction p arbitrary: p' rule: walk.induct)
  case (1 p)
  have eq: "map (\<lambda>x. map node (case x of (s, c) \<Rightarrow> walk (get p s c))) (children (node p)) =
        map (\<lambda>x. map node (case x of (s, c) \<Rightarrow> walk (get p' s c))) (children (node p))"
  proof (rule map_cong[OF refl])
    fix x assume x: "x \<in> set (children (node p))"
    obtain s c where sc: "x = (s, c)" by (cases x)
    from x sc have mem: "(s, c) \<in> set (children (node p))" by simp
    have "map node (walk (get p s c)) = map node (walk (get p' s c))"
      by (rule "1.IH"[OF mem refl]) simp
    with sc show "map node (case x of (s, c) \<Rightarrow> walk (get p s c)) =
          map node (case x of (s, c) \<Rightarrow> walk (get p' s c))"
      by simp
  qed
  show ?case
    unfolding nodes_walk_unfold[of p] nodes_walk_unfold[of p'] eq
    unfolding "1.prems" ..
qed

lemma subnodes_walk: "map node (walk p) = subnodes (node p)"
  unfolding subnodes_def by (rule nodes_walk) (simp add: object_path_def)

lemma subnodes_self: "n \<in> set (subnodes n)"
  using walk_self[of "object_path n"] unfolding subnodes_def
  by (force simp: object_path_def)

lemma subnodes_child:
  assumes "(s, c) \<in> set (children n)"
  shows "set (subnodes c) \<subseteq> set (subnodes n)"
proof -
  let ?p = "object_path n"
  from assms have "(s, c) \<in> set (children (node ?p))" by (simp add: object_path_def)
  from walk_sub[OF this] have "node ` set (walk (get ?p s c)) \<subseteq> node ` set (walk ?p)"
    by blast
  then have "set (map node (walk (get ?p s c))) \<subseteq> set (map node (walk ?p))" by simp
  then show ?thesis
    unfolding subnodes_walk by (simp add: object_path_def)
qed

section \<open>The scopes of a traversal\<close>

lemma getBinding_Some: "getBinding sc n = Some b \<Longrightarrow> \<exists>f\<in>set sc. (n, b) \<in> set f"
  by (induction sc) (auto split: option.splits dest: map_of_SomeD)

lemma bind_mem:
  "(x, b) \<in> set (bind i n par) \<Longrightarrow>
     binding_parent b = par \<and> binding_node b = n \<and> isIdentifier i \<and> x = name_of i"
  by (auto simp: bind_def split: if_splits)

lemma declares_parent: "(x, b) \<in> set (declares par n) \<Longrightarrow> binding_parent b = par"
  by (cases n) (auto dest: bind_mem)

lemma hoisted_parent: "(x, b) \<in> set (hoisted par n) \<Longrightarrow> binding_parent b = par"
  by (cases n) (auto dest: bind_mem)

lemma declared_import:
  assumes "(x, b) \<in> set (declared par st)" and "isImportDeclaration (binding_parent b)"
    and "\<not> isImportDeclaration par"
  shows "isImportDeclaration st"
  using assms by (cases st) (auto dest: declares_parent hoisted_parent bind_mem)

lemma indexed_mem: "n \<in> set ns \<Longrightarrow> \<exists>i. (Idx k i, n) \<in> set (indexed k ns)"
proof -
  assume "n \<in> set ns"
  then obtain i where i: "i < length ns" "ns ! i = n"
    by (auto simp: in_set_conv_nth)
  then have "(i, n) \<in> set (enumerate 0 ns)"
    by (simp add: in_set_enumerate_eq)
  then have "(\<lambda>(i, n). (Idx k i, n)) (i, n) \<in> set (indexed k ns)"
    unfolding indexed_def set_map by (rule imageI)
  then show ?thesis by auto
qed

lemma indexed_snd: "(s, n) \<in> set (indexed k ns) \<Longrightarrow> n \<in> set ns"
  by (auto simp: indexed_def in_set_enumerate_eq)

lemma statements_no_import:
  assumes "\<forall>(s, c)\<in>set (indexed k stmts). \<not> isImportDeclaration c"
    and "\<not> isImportDeclaration par"
  shows "no_import_binding (concat (map (declared par) stmts))"
  unfolding no_import_binding_def
proof (clarsimp)
  fix x b st
  assume st: "st \<in> set stmts" and m: "(x, b) \<in> set (declared par st)"
    and i: "isImportDeclaration (binding_parent b)"
  from declared_import[OF m i assms(2)] have "isImportDeclaration st" .
  moreover from indexed_mem[OF st, of k] assms(1) have "\<not> isImportDeclaration st" by auto
  ultimately show False by simp
qed

lemma body_frame_no_import:
  assumes "\<forall>(s, c)\<in>set (children b). \<not> isImportDeclaration c"
  shows "no_import_binding (body_frame b)"
proof (cases b)
  case (BlockStatement stmts)
  with assms statements_no_import[of "''body''" stmts b] show ?thesis by simp
qed (simp_all add: no_import_binding_def)

lemma params_no_import:
  assumes "\<not> isImportDeclaration c"
  shows "no_import_binding (concat (map (declares c) ps))"
  using assms by (auto simp: no_import_binding_def dest: declares_parent)

lemma no_import_append:
  "no_import_binding f \<Longrightarrow> no_import_binding g \<Longrightarrow> no_import_binding (f @ g)"
  by (auto simp: no_import_binding_def)

lemma frame_of_no_import:
  assumes "\<not> isProgram c" and "\<not> isImportDeclaration c"
    and "\<forall>(s, c')\<in>set (children c). \<not> isImportDeclaration c' \<and>
           (\<forall>(s', c'')\<in>set (children c'). \<not> isImportDeclaration c'')"
  shows "no_import_binding (frame_of c)"
proof (cases c)
  case (BlockStatement stmts)
  with assms(3) have "\<forall>(s, c')\<in>set (children c). \<not> isImportDeclaration c'" by auto
  from body_frame_no_import[OF this] BlockStatement show ?thesis by simp
next
  case (FunctionDeclaration i ps b)
  with assms(3) have "\<forall>(s', c'')\<in>set (children b). \<not> isImportDeclaration c''" by auto
  from body_frame_no_import[OF this] params_no_import[OF assms(2), of ps] FunctionDeclaration
  show ?thesis by (simp add: no_import_append)
next
  case (ObjectMethod cm k ps b)
  with assms(3) have "\<forall>(s', c'')\<in>set (children b). \<not> isImportDeclaration c''" by auto
  from body_frame_no_import[OF this] params_no_import[OF assms(2), of ps] ObjectMethod
  show ?thesis by (simp add: no_import_append)
next
  case (ArrowFunctionExpression ps b)
  with assms(3) have "\<forall>(s', c'')\<in>set (children b). \<not> isImportDeclaration c''" by auto
  from body_frame_no_import[OF this] params_no_import[OF assms(2), of ps] ArrowFunctionExpression
  show ?thesis by (simp add: no_import_append)
qed (use assms in \<open>simp_all add: no_import_binding_def\<close>)

lemma getScope_good:
  assumes "good_scope body sc" and "\<forall>n\<in>set (subnodes c). inner n"
  shows "good_scope body (getScope c par sc)"
proof -
  from assms(2) subnodes_self[of c] have c: "\<not> isProgram c" "\<not> isImportDeclaration c"
    by (auto simp: inner_def)
  have "\<forall>(s, c')\<in>set (children c). \<not> isImportDeclaration c' \<and>
           (\<forall>(s', c'')\<in>set (children c'). \<not> isImportDeclaration c'')"
  proof (clarify, intro conjI ballI)
    fix s c' assume m: "(s, c') \<in> set (children c)"
    from subnodes_child[OF m] subnodes_self[of c'] assms(2)
    show "\<not> isImportDeclaration c'" by (auto simp: inner_def)
    fix x assume x: "x \<in> set (children c')"
    obtain s' c'' where sc: "x = (s', c'')" by (cases x)
    from x sc subnodes_child[of s' c'' c'] subnodes_child[OF m] subnodes_self[of c''] assms(2)
    have "\<not> isImportDeclaration c''" by (auto simp: inner_def)
    with sc show "case x of (s', c'') \<Rightarrow> \<not> isImportDeclaration c''" by simp
  qed
  from frame_of_no_import[OF c this] assms(1) show ?thesis
    by (auto simp: getScope_def good_scope_def)
qed

lemma inherited_good: "good_scope body (scope p) \<Longrightarrow> good_scope body (inherited p s)"
  by (cases "scope p") (auto simp: inherited_def good_scope_def)

lemma scope_get: "scope (get p s c) = getScope c (Some (node p)) (inherited p s)"
  by (simp add: get_def)

lemma walk_good:
  "good_scope body (scope p) \<Longrightarrow>
   (\<forall>(s, c)\<in>set (children (node p)). \<forall>n\<in>set (subnodes c). inner n) \<Longrightarrow>
   \<forall>q\<in>set (walk p). good_scope body (scope q)"
proof (induction p rule: walk.induct)
  case (1 p)
  show ?case
  proof
    fix q assume "q \<in> set (walk p)"
    then show "good_scope body (scope q)"
    proof (cases rule: walk_cases)
      case 1
      with "1.prems"(1) show ?thesis by simp
    next
      case (2 s c)
      from 2(1) "1.prems"(2) have inn: "\<forall>n\<in>set (subnodes c). inner n" by auto
      from getScope_good[OF inherited_good[OF "1.prems"(1)] inn]
      have g: "good_scope body (scope (get p s c))" by (simp add: scope_get)
      have "\<forall>(s', c')\<in>set (children (node (get p s c))). \<forall>n\<in>set (subnodes c'). inner n"
        using inn subnodes_child[of _ _ c] by auto
      from "1.IH"[OF 2(1) refl g this] 2(2) show ?thesis by blast
    qed
  qed
qed

lemma program_frame_canonical:
  assumes "(x, b) \<in> set (frame_of (Program body))"
    and "isCanonicallyImportedAs b ''react-router'' ''defineRoute''"
  shows "imports_defineRoute body"
proof -
  from assms(1) obtain st where st: "st \<in> set body"
    and m: "(x, b) \<in> set (declared (Program body) st)"
    by auto
  from assms(2) obtain specifiers local
    where par: "binding_parent b = ImportDeclaration specifiers ''react-router''"
      and nod: "binding_node b = ImportSpecifier (Identifier ''defineRoute'') local"
    unfolding isCanonicallyImportedAs_iff by blast
  from declared_import[OF m] par have "isImportDeclaration st" by simp
  then obtain specs src where decl: "st = ImportDeclaration specs src"
    by (cases st) auto
  with m obtain spec where spec: "spec \<in> set specs" and d: "(x, b) \<in> set (declares st spec)"
    by auto
  from declares_parent[OF d] par decl have src: "src = ''react-router''" by simp
  from d nod have "names_factory spec"
    by (cases spec) (auto dest!: bind_mem)
  with spec src decl have "imports_factory st"
    by (auto simp: list_ex_iff)
  with st show ?thesis
    by (auto simp: imports_defineRoute_def list_ex_iff)
qed

lemma traverse_File:
  "traverse (File (Program body)) =
     \<lparr>node = File (Program body), parent = None, grandparent = None, scope = [], loc = []\<rparr> #
     walk (get \<lparr>node = File (Program body), parent = None, grandparent = None, scope = [], loc = []\<rparr>
            (Key ''program'') (Program body))"
  by (simp add: traverse_def getScope_def walk_unfold[of "\<lparr>node = File (Program body), parent = None, grandparent = None, scope = [], loc = []\<rparr>"] walks_Cons walks_Nil)

lemma scope_program_path: "scope (program_path body) = [frame_of (Program body)]"
  by (simp add: program_path_def get_def getScope_def inherited_def)

lemma node_program_path: "node (program_path body) = Program body"
  by (simp add: program_path_def)

lemma traverse_good:
  assumes "top_level body"
  shows "\<forall>q\<in>set (traverse (File (Program body))). good_scope body (scope q)"
proof -
  have g: "good_scope body (scope (program_path body))"
    by (simp add: scope_program_path good_scope_def)
  have inner_stmt: "\<forall>n\<in>set (subnodes c). inner n"
    if "(s, c) \<in> set (children st)" and "st \<in> set body" for s c st
  proof -
    from assms that(2)
    have "\<forall>x\<in>set (children st). case x of (s, c) \<Rightarrow> \<forall>n\<in>set (subnodes c). inner n"
      unfolding top_level_def list_all_iff by blast
    from bspec[OF this that(1)] show ?thesis by simp
  qed
  have "\<forall>q\<in>set (walk (program_path body)). good_scope body (scope q)"
  proof
    fix q assume "q \<in> set (walk (program_path body))"
    then show "good_scope body (scope q)"
    proof (cases rule: walk_cases)
      case 1
      with g show ?thesis by simp
    next
      case (2 s st)
      then have st: "st \<in> set body"
        by (auto simp: node_program_path dest: indexed_snd)
      from st assms have np: "\<not> isProgram st"
        by (auto simp: top_level_def list_all_iff)
      have gs: "good_scope body (scope (get (program_path body) s st))"
      proof (cases "isImportDeclaration st")
        case True
        then have "\<not> isScope st (Some (Program body))" by (cases st) auto
        with g show ?thesis
          by (simp add: scope_get getScope_def inherited_def node_program_path)
      next
        case False
        have "\<forall>(s', c')\<in>set (children st). \<not> isImportDeclaration c' \<and>
           (\<forall>(s'', c'')\<in>set (children c'). \<not> isImportDeclaration c'')"
        proof (clarify, intro conjI ballI)
          fix s' c' assume m: "(s', c') \<in> set (children st)"
          from inner_stmt[OF m st] subnodes_self[of c']
          show "\<not> isImportDeclaration c'" by (auto simp: inner_def)
          fix x assume x: "x \<in> set (children c')"
          obtain s'' c'' where sc: "x = (s'', c'')" by (cases x)
          from x sc subnodes_child[of s'' c'' c'] subnodes_self[of c''] inner_stmt[OF m st]
          have "\<not> isImportDeclaration c''" by (auto simp: inner_def)
          with sc show "case x of (s'', c'') \<Rightarrow> \<not> isImportDeclaration c''" by simp
        qed
        from frame_of_no_import[OF np False this] g show ?thesis
          by (auto simp: scope_get getScope_def inherited_def node_program_path good_scope_def)
      qed
      have "\<forall>(s', c')\<in>set (children (node (get (program_path body) s st))).
              \<forall>n\<in>set (subnodes c'). inner n"
        using inner_stmt[OF _ st] by auto
      from walk_good[OF gs this] 2(2) show ?thesis by blast
    qed
  qed
  then show ?thesis
    unfolding traverse_File program_path_def[symmetric]
    by (simp add: good_scope_def)
qed

lemma resolved_imports:
  assumes "top_level body" and "q \<in> set (traverse (File (Program body)))"
    and "isDefineRoute q"
  shows "imports_defineRoute body"
proof -
  from assms(3) obtain b where b: "getBinding (scope q) (name_of (node q)) = Some b"
    and c: "isCanonicallyImportedAs b ''react-router'' ''defineRoute''"
    by (auto simp: isDefineRoute_def split: if_splits option.splits)
  from getBinding_Some[OF b] obtain f where f: "f \<in> set (scope q)"
    and m: "(name_of (node q), b) \<in> set f"
    by blast
  from traverse_good[OF assms(1)] assms(2) f
  have "no_import_binding f \<or> f = frame_of (Program body)"
    by (auto simp: good_scope_def)
  moreover from c have "isImportDeclaration (binding_parent b)"
    unfolding isCanonicallyImportedAs_iff by auto
  ultimately have "f = frame_of (Program body)"
    using m by (auto simp: no_import_binding_def)
  with m have "(name_of (node q), b) \<in> set (frame_of (Program body))"
    by simp
  from program_frame_canonical[OF this c] show ?thesis .
qed

lemma import_resolved:
  assumes "imports_defineRoute body" and "distinct (map fst (frame_of (Program body)))"
  shows "\<exists>q\<in>set (traverse (File (Program body))). isIdentifier (node q) \<and> isDefineRoute q"
proof -
  from assms(1) obtain decl where decl: "decl \<in> set body" and fd: "imports_factory decl"
    by (auto simp: imports_defineRoute_def list_ex_iff)
  from fd obtain specifiers where d: "decl = ImportDeclaration specifiers ''react-router''"
    and ex: "list_ex names_factory specifiers"
    by (cases decl) auto
  from ex obtain spec where spec: "spec \<in> set specifiers" and nf: "names_factory spec"
    by (auto simp: list_ex_iff)
  from nf obtain imported local where s: "spec = ImportSpecifier imported local"
    and i: "isIdentifier imported" "name_of imported = ''defineRoute''" and l: "isIdentifier local"
    by (cases spec) auto
  from i have imp: "imported = Identifier ''defineRoute''" by (cases imported) auto
  let ?b = "\<lparr>binding_node = spec, binding_parent = decl\<rparr>"
  let ?pp = "program_path body"
  from l s have "(name_of local, ?b) \<in> set (declares decl spec)"
    by (simp add: bind_def)
  with spec d have "(name_of local, ?b) \<in> set (declared (Program body) decl)"
    by auto
  with decl have "(name_of local, ?b) \<in> set (frame_of (Program body))"
    by auto
  with assms(2) have look: "map_of (frame_of (Program body)) (name_of local) = Some ?b"
    by (rule map_of_is_SomeI)
  from indexed_mem[OF decl] obtain j where j: "(Idx ''body'' j, decl) \<in> set (children (node ?pp))"
    by (auto simp: node_program_path)
  from indexed_mem[OF spec] d obtain k
    where k: "(Idx ''specifiers'' k, spec) \<in> set (children decl)"
    by auto
  let ?dp = "get ?pp (Idx ''body'' j) decl"
  let ?sp = "get ?dp (Idx ''specifiers'' k) spec"
  let ?lp = "get ?sp (Key ''local'') local"
  have dp: "?dp \<in> set (walk ?pp)"
    by (rule walk_child_mem[OF walk_self j])
  have sp: "?sp \<in> set (walk ?pp)"
    by (rule walk_child_mem[OF dp]) (simp add: k)
  have "?lp \<in> set (walk ?pp)"
    by (rule walk_child_mem[OF sp]) (simp add: s)
  then have mem: "?lp \<in> set (traverse (File (Program body)))"
    unfolding traverse_File program_path_def[symmetric] by simp
  from l have nl: "\<not> isScope local (Some spec)" by (cases local) auto
  have "scope ?lp = [frame_of (Program body)]"
    using d s nl
    by (simp add: scope_get getScope_def inherited_def scope_program_path node_program_path)
  with look l d s imp have "isDefineRoute ?lp"
    by (simp add: isDefineRoute_def isCanonicallyImportedAs_def)
  with mem l show ?thesis
    by (intro bexI[of _ ?lp]) simp_all
qed

lemma each_assertNotImported:
  "each assertNotImported_Identifier ps =
     (if \<exists>p\<in>set ps. isDefineRoute p
      then Inl (CodeFrameError (loc (hd (filter isDefineRoute ps))) DefineRouteOutsideRouteModules)
      else Inr ())"
  by (induction ps) (auto simp: assertNotImported_Identifier_def)

section \<open>Properties\<close>

subsection \<open>Server builds\<close>

text \<open>
  Claim C2.  For every source text, whether it parses or not, \<open>transform\<close> with the
  server option set returns that very text: no parser, guard or generator is
  consulted.
\<close>

theorem transform_ssr_returns_code:
  "transform babel_parse findReferencedIdentifiers deadCodeElimination generate code i
     (Some True) = Inr (Source code)"
  by (simp add: transform_def)

subsection \<open>Duplicate keys\<close>

text \<open>
  Claim C9, as stated, fails: in \<^verbatim>\<open>{ __proto__() {}, __proto__() {} }\<close> the identifier
  key \<^verbatim>\<open>__proto__\<close> occurs twice and the matcher raises no error, but the analysis
  has no entry at all, so it does not map the key to its last occurrence.
\<close>

theorem duplicate_proto_not_recorded:
  "map key_name duplicate_proto = [''__proto__'', ''__proto__''] \<and>
   analyzeRoute (object_path (ObjectExpression duplicate_proto)) = Inr [] \<and>
   map_of ([] :: Analysis) ''__proto__'' = None"
  by code_simp

text \<open>
  Claim C9, amended.  For an object literal \<open>path\<close> without the key \<^verbatim>\<open>__proto__\<close>, the
  schema matcher succeeds exactly when every property passes its own checks: no
  check compares two properties, so a repeated key raises no error.  On success the
  analysis maps the key of a property that no later property repeats to the path of
  that property, so of several properties with one key the last is recorded.
\<close>

theorem duplicate_keys_last_wins:
  assumes "node path = ObjectExpression properties"
    and "''__proto__'' \<notin> set (map key_name properties)"
  shows "((\<exists>analysis. analyzeRoute path = Inr analysis) \<longleftrightarrow>
          (\<forall>j<length properties. \<exists>k.
             analyzeProperty (get path (Idx ''properties'' j) (properties ! j)) (properties ! j)
               = Inr k)) \<and>
         (\<forall>analysis j.
            analyzeRoute path = Inr analysis \<and> j < length properties \<and>
            (\<forall>j'. j < j' \<and> j' < length properties \<longrightarrow>
               key_name (properties ! j') \<noteq> key_name (properties ! j)) \<longrightarrow>
            map_of analysis (key_name (properties ! j)) =
              Some (get path (Idx ''properties'' j) (properties ! j)))"
proof (intro conjI allI impI)
  show "(\<exists>analysis. analyzeRoute path = Inr analysis) \<longleftrightarrow>
          (\<forall>j<length properties. \<exists>k.
             analyzeProperty (get path (Idx ''properties'' j) (properties ! j)) (properties ! j)
               = Inr k)"
    using assms(1) analyzeProperties_succeeds[of path 0 "[]" properties]
    by (simp add: analyzeRoute_def)
next
  fix analysis j
  assume a: "analyzeRoute path = Inr analysis \<and> j < length properties \<and>
            (\<forall>j'. j < j' \<and> j' < length properties \<longrightarrow>
               key_name (properties ! j') \<noteq> key_name (properties ! j))"
  with assms(1) have run: "analyzeProperties path 0 [] properties = Inr analysis"
    by (simp add: analyzeRoute_def)
  from a assms(2) have "key_name (properties ! j) \<noteq> ''__proto__''"
    by (metis nth_mem set_map image_eqI)
  with analyzeProperties_last[OF run, of j "key_name (properties ! j)"] a
  show "map_of analysis (key_name (properties ! j)) =
          Some (get path (Idx ''properties'' j) (properties ! j))"
    by simp
qed

theorem duplicate_keys_last_wins_witness:
  "node (object_path (ObjectExpression duplicate_serverLoader)) =
     ObjectExpression duplicate_serverLoader \<and>
   ''__proto__'' \<notin> set (map key_name duplicate_serverLoader) \<and>
   (\<exists>analysis. analyzeRoute (object_path (ObjectExpression duplicate_serverLoader)) = Inr analysis \<and>
      map_of analysis ''serverLoader'' =
        Some (get (object_path (ObjectExpression duplicate_serverLoader)) (Idx ''properties'' 1)
               (ObjectProperty False (Identifier ''serverLoader'') (NumericLiteral 2))))"
proof -
  let ?path = "object_path (ObjectExpression duplicate_serverLoader)"
  have n: "node ?path = ObjectExpression duplicate_serverLoader"
    by (simp add: object_path_def)
  have np: "''__proto__'' \<notin> set (map key_name duplicate_serverLoader)"
    by (simp add: duplicate_serverLoader_def)
  have each: "\<forall>j<length duplicate_serverLoader. \<exists>k.
      analyzeProperty (get ?path (Idx ''properties'' j) (duplicate_serverLoader ! j))
        (duplicate_serverLoader ! j) = Inr k"
    by (simp add: duplicate_serverLoader_def All_less_Suc)
  from duplicate_keys_last_wins[OF n np] each
  obtain analysis where run: "analyzeRoute ?path = Inr analysis"
    by blast
  have "1 < length duplicate_serverLoader \<and>
        (\<forall>j'. 1 < j' \<and> j' < length duplicate_serverLoader \<longrightarrow>
           key_name (duplicate_serverLoader ! j') \<noteq> key_name (duplicate_serverLoader ! 1))"
    by (simp add: duplicate_serverLoader_def)
  with duplicate_keys_last_wins[OF n np] run
  have "map_of analysis (key_name (duplicate_serverLoader ! 1)) =
          Some (get ?path (Idx ''properties'' 1) (duplicate_serverLoader ! 1))"
    by blast
  then have "map_of analysis ''serverLoader'' =
        Some (get ?path (Idx ''properties'' 1)
               (ObjectProperty False (Identifier ''serverLoader'') (NumericLiteral 2)))"
    by (simp add: duplicate_serverLoader_def)
  with n np run show ?thesis by blast
qed

subsection \<open>The field \<^verbatim>\<open>params\<close>\<close>

text \<open>
  Claim C6.  For an object literal \<open>path\<close>: if the schema matcher succeeds, every
  property named \<^verbatim>\<open>params\<close> is a plain property whose value is a literal array of
  literal strings.  When the properties before a \<^verbatim>\<open>params\<close> property pass and its
  value is not a literal array (or it is a method), the matcher fails with the
  array message at that property; when the value is an array whose first element
  that is not a literal string (a hole included) stands at index \<open>length es\<close>, it
  fails with the string message at that element.  Both are schema errors.  The
  result is either an error or an analysis, never both.  The object is assumed to
  have no key \<^verbatim>\<open>__proto__\<close>.
\<close>

theorem params_literal_string_array:
  assumes "node path = ObjectExpression properties"
    and "''__proto__'' \<notin> set (map key_name properties)"
  shows
    "(\<forall>analysis. analyzeRoute path = Inr analysis \<longrightarrow>
        (\<forall>p\<in>set properties. key_name p = ''params'' \<longrightarrow>
           (\<exists>elements. p = ObjectProperty False (Identifier ''params'') (ArrayExpression elements) \<and>
              (\<forall>e\<in>set elements. \<exists>s. e = Some (StringLiteral s))))) \<and>
     (\<forall>pre p post analysis.
        properties = pre @ p # post \<and> analyzeProperties path 0 [] pre = Inr analysis \<and>
        ((\<exists>v. p = ObjectProperty False (Identifier ''params'') v \<and> \<not> isArrayExpression v) \<or>
         (\<exists>ps b. p = ObjectMethod False (Identifier ''params'') ps b)) \<longrightarrow>
        analyzeRoute path =
          Inl (CodeFrameError (loc path @ [Idx ''properties'' (length pre)])
                 RouteParamsMustBeLiteralArray)) \<and>
     (\<forall>pre es e es' post analysis.
        properties =
          pre @ ObjectProperty False (Identifier ''params'') (ArrayExpression (es @ e # es')) # post \<and>
        analyzeProperties path 0 [] pre = Inr analysis \<and>
        (\<forall>x\<in>set es. \<exists>s. x = Some (StringLiteral s)) \<and> \<not> is_a isStringLiteral e \<longrightarrow>
        analyzeRoute path =
          Inl (CodeFrameError
                 (loc path @ [Idx ''properties'' (length pre), Key ''value'',
                              Idx ''elements'' (length es)])
                 RouteParamMustBeLiteralString)) \<and>
     kind_of RouteParamsMustBeLiteralArray = SchemaError \<and>
     kind_of RouteParamMustBeLiteralString = SchemaError"
proof (intro conjI allI impI ballI)
  fix analysis p
  assume run: "analyzeRoute path = Inr analysis" and p: "p \<in> set properties"
    and k: "key_name p = ''params''"
  from run assms(1) have "analyzeProperties path 0 [] properties = Inr analysis"
    by (simp add: analyzeRoute_def)
  from analyzeProperties_each[OF this p] obtain pp k' where ok: "analyzeProperty pp p = Inr k'"
    by blast
  from analyzeProperty_key[OF ok] k have "k' = ''params''" by simp
  with analyzeProperty_accepts[OF ok] analyzeProperty_params[OF ok k]
  show "\<exists>elements. p = ObjectProperty False (Identifier ''params'') (ArrayExpression elements) \<and>
              (\<forall>e\<in>set elements. \<exists>s. e = Some (StringLiteral s))"
    by auto
next
  fix pre p post analysis
  assume a: "properties = pre @ p # post \<and> analyzeProperties path 0 [] pre = Inr analysis \<and>
        ((\<exists>v. p = ObjectProperty False (Identifier ''params'') v \<and> \<not> isArrayExpression v) \<or>
         (\<exists>ps b. p = ObjectMethod False (Identifier ''params'') ps b))"
  then have "analyzeProperty (get path (Idx ''properties'' (length pre)) p) p =
      Inl (CodeFrameError (loc path @ [Idx ''properties'' (length pre)])
             RouteParamsMustBeLiteralArray)"
    by (auto simp: get_def split: node.splits)
  with a assms(1) show "analyzeRoute path =
          Inl (CodeFrameError (loc path @ [Idx ''properties'' (length pre)])
                 RouteParamsMustBeLiteralArray)"
    by (simp add: analyzeRoute_def analyzeProperties_append Let_def)
next
  fix pre es e es' post analysis
  let ?p = "ObjectProperty False (Identifier ''params'') (ArrayExpression (es @ e # es'))"
  assume a: "properties = pre @ ?p # post \<and>
        analyzeProperties path 0 [] pre = Inr analysis \<and>
        (\<forall>x\<in>set es. \<exists>s. x = Some (StringLiteral s)) \<and> \<not> is_a isStringLiteral e"
  then have "analyzeProperty (get path (Idx ''properties'' (length pre)) ?p) ?p =
      Inl (CodeFrameError
                 (loc path @ [Idx ''properties'' (length pre), Key ''value'',
                              Idx ''elements'' (length es)])
                 RouteParamMustBeLiteralString)"
    by (simp add: checkElements_first get_def)
  with a assms(1) show "analyzeRoute path =
          Inl (CodeFrameError
                 (loc path @ [Idx ''properties'' (length pre), Key ''value'',
                              Idx ''elements'' (length es)])
                 RouteParamMustBeLiteralString)"
    by (simp add: analyzeRoute_def analyzeProperties_append Let_def)
qed simp_all

theorem params_literal_string_array_witness:
  "node (object_path (ObjectExpression params_strings)) = ObjectExpression params_strings \<and>
   ''__proto__'' \<notin> set (map key_name params_strings) \<and>
   (\<exists>analysis. analyzeRoute (object_path (ObjectExpression params_strings)) = Inr analysis) \<and>
   (\<exists>elements. params_strings ! 0 =
       ObjectProperty False (Identifier ''params'') (ArrayExpression elements) \<and>
       list_all (\<lambda>e. \<exists>s. e = Some (StringLiteral s)) elements) \<and>
   analyzeRoute (object_path (ObjectExpression params_not_array)) =
     Inl (CodeFrameError [Idx ''properties'' 1] RouteParamsMustBeLiteralArray) \<and>
   analyzeRoute (object_path (ObjectExpression params_not_strings)) =
     Inl (CodeFrameError [Idx ''properties'' 0, Key ''value'', Idx ''elements'' 1]
            RouteParamMustBeLiteralString)"
proof -
  let ?ok = "object_path (ObjectExpression params_strings)"
  let ?na = "object_path (ObjectExpression params_not_array)"
  let ?ns = "object_path (ObjectExpression params_not_strings)"
  have n1: "node ?ok = ObjectExpression params_strings"
    and n2: "node ?na = ObjectExpression params_not_array"
    and n3: "node ?ns = ObjectExpression params_not_strings"
    by (simp_all add: object_path_def)
  have p1: "''__proto__'' \<notin> set (map key_name params_strings)"
    and p2: "''__proto__'' \<notin> set (map key_name params_not_array)"
    and p3: "''__proto__'' \<notin> set (map key_name params_not_strings)"
    by (simp_all add: params_strings_def params_not_array_def params_not_strings_def)
  have run: "\<exists>analysis. analyzeRoute ?ok = Inr analysis"
    by (simp add: analyzeRoute_def object_path_def params_strings_def)
  have mem: "params_strings ! 0 \<in> set params_strings" "key_name (params_strings ! 0) = ''params''"
    by (simp_all add: params_strings_def)
  from params_literal_string_array[OF n1 p1] run mem
  have c1: "\<exists>elements. params_strings ! 0 =
       ObjectProperty False (Identifier ''params'') (ArrayExpression elements) \<and>
       (\<forall>e\<in>set elements. \<exists>s. e = Some (StringLiteral s))"
    by blast
  have "params_not_array =
      [ObjectProperty False (Identifier ''Component'') NullLiteral] @
      ObjectProperty False (Identifier ''params'') (StringLiteral ''id'') # [] \<and>
    analyzeProperties ?na 0 [] [ObjectProperty False (Identifier ''Component'') NullLiteral]
      = Inr [(''Component'', get ?na (Idx ''properties'' 0)
               (ObjectProperty False (Identifier ''Component'') NullLiteral))] \<and>
    ((\<exists>v. ObjectProperty False (Identifier ''params'') (StringLiteral ''id'') =
            ObjectProperty False (Identifier ''params'') v \<and> \<not> isArrayExpression v) \<or>
     (\<exists>ps b. ObjectProperty False (Identifier ''params'') (StringLiteral ''id'') =
            ObjectMethod False (Identifier ''params'') ps b))"
    by (simp add: params_not_array_def assign_def)
  with params_literal_string_array[OF n2 p2]
  have "analyzeRoute ?na =
      Inl (CodeFrameError (loc ?na @
        [Idx ''properties'' (length [ObjectProperty False (Identifier ''Component'') NullLiteral])])
        RouteParamsMustBeLiteralArray)"
    by blast
  then have c2: "analyzeRoute ?na =
      Inl (CodeFrameError [Idx ''properties'' 1] RouteParamsMustBeLiteralArray)"
    by (simp add: object_path_def)
  have "params_not_strings =
      [] @ ObjectProperty False (Identifier ''params'')
        (ArrayExpression ([Some (StringLiteral ''id'')] @ Some (Identifier ''lang'') # [])) # [] \<and>
    analyzeProperties ?ns 0 [] [] = Inr [] \<and>
    (\<forall>x\<in>set [Some (StringLiteral ''id'')]. \<exists>s. x = Some (StringLiteral s)) \<and>
    \<not> is_a isStringLiteral (Some (Identifier ''lang''))"
    by (simp add: params_not_strings_def)
  with params_literal_string_array[OF n3 p3]
  have "analyzeRoute ?ns =
      Inl (CodeFrameError
        (loc ?ns @ [Idx ''properties'' (length ([]::node list)), Key ''value'',
                    Idx ''elements'' (length [Some (StringLiteral ''id'')])])
        RouteParamMustBeLiteralString)"
    by blast
  then have c3: "analyzeRoute ?ns =
      Inl (CodeFrameError [Idx ''properties'' 0, Key ''value'', Idx ''elements'' 1]
            RouteParamMustBeLiteralString)"
    by (simp add: object_path_def)
  from n1 p1 run c1 c2 c3 show ?thesis
    by (simp add: list_all_iff)
qed

subsection \<open>The canonical factory\<close>

text \<open>
  Claim C5.  The test \<open>isCanonicallyImportedAs\<close> holds exactly of a binding declared
  by an import specifier (not a default or namespace specifier) whose imported name
  is the given identifier, in an import declaration whose source is the given
  string, compared as it stands.  \<open>isDefineRoute\<close> holds exactly of an identifier
  whose binding is such a specifier for \<^verbatim>\<open>defineRoute\<close> from \<^verbatim>\<open>react-router\<close>.  A
  default-exported call whose callee fails the test is rejected with the schema
  error that the default export must be a literal object or a call to the factory,
  located at the declaration.
\<close>

theorem canonical_factory_test:
  "(isCanonicallyImportedAs binding sourceName importedName \<longleftrightarrow>
      (\<exists>specifiers local.
         binding_parent binding = ImportDeclaration specifiers sourceName \<and>
         binding_node binding = ImportSpecifier (Identifier importedName) local)) \<and>
   (isDefineRoute p \<longleftrightarrow>
      (\<exists>name b specifiers local.
         node p = Identifier name \<and> getBinding (scope p) name = Some b \<and>
         binding_parent b = ImportDeclaration specifiers ''react-router'' \<and>
         binding_node b = ImportSpecifier (Identifier ''defineRoute'') local)) \<and>
   (node path = ExportDefaultDeclaration (CallExpression callee arguments) \<and>
    \<not> isDefineRoute
        (get (get path (Key ''declaration'') (CallExpression callee arguments))
           (Key ''callee'') callee) \<longrightarrow>
    analyzeRouteExport path =
      Inl (CodeFrameError (loc path @ [Key ''declaration''])
             DefaultExportMustBeObjectOrDefineRoute)) \<and>
   kind_of DefaultExportMustBeObjectOrDefineRoute = SchemaError"
proof (intro conjI impI)
  assume a: "node path = ExportDefaultDeclaration (CallExpression callee arguments) \<and>
    \<not> isDefineRoute
        (get (get path (Key ''declaration'') (CallExpression callee arguments))
           (Key ''callee'') callee)"
  have "loc (get path (Key ''declaration'') (CallExpression callee arguments)) =
      loc path @ [Key ''declaration'']"
    by (simp add: get_def)
  with a show "analyzeRouteExport path =
      Inl (CodeFrameError (loc path @ [Key ''declaration''])
             DefaultExportMustBeObjectOrDefineRoute)"
    by (simp add: analyzeRouteExport_def Let_def)
qed (simp_all add: isCanonicallyImportedAs_iff isDefineRoute_iff)

theorem canonical_factory_test_witness:
  "node (exportDefaultDeclarations default_import_route ! 0) =
     ExportDefaultDeclaration (CallExpression (Identifier ''defineRoute'') [ObjectExpression []]) \<and>
   \<not> isDefineRoute
       (get (get (exportDefaultDeclarations default_import_route ! 0) (Key ''declaration'')
               (CallExpression (Identifier ''defineRoute'') [ObjectExpression []]))
          (Key ''callee'') (Identifier ''defineRoute'')) \<and>
   analyzeRouteExport (exportDefaultDeclarations default_import_route ! 0) =
     Inl (CodeFrameError [Key ''program'', Idx ''body'' 1, Key ''declaration'']
            DefaultExportMustBeObjectOrDefineRoute)"
proof -
  let ?path = "exportDefaultDeclarations default_import_route ! 0"
  let ?call = "CallExpression (Identifier ''defineRoute'') [ObjectExpression []]"
  have h: "node ?path = ExportDefaultDeclaration ?call \<and>
      \<not> isDefineRoute (get (get ?path (Key ''declaration'') ?call) (Key ''callee'')
           (Identifier ''defineRoute''))"
    by code_simp
  have l: "loc ?path @ [Key ''declaration''] = [Key ''program'', Idx ''body'' 1, Key ''declaration'']"
    by code_simp
  from canonical_factory_test[of _ _ _ _ ?path "Identifier ''defineRoute''" "[ObjectExpression []]"] h
  have "analyzeRouteExport ?path =
      Inl (CodeFrameError (loc ?path @ [Key ''declaration''])
             DefaultExportMustBeObjectOrDefineRoute)"
    by blast
  with h l show ?thesis by simp
qed

subsection \<open>Modules without a default export\<close>

text \<open>
  Claim C10.  For a module that parses, passes the misuse guard and has no default
  export declaration, \<open>parseFields\<close> returns the empty list, and \<open>transform\<close> for a
  client build (the option \<^verbatim>\<open>ssr\<close> false or absent) marks nothing for removal: the
  tree handed to dead-code elimination and the generator is the parsed tree.  No
  schema error is raised.
\<close>

theorem without_default_export:
  assumes "babel_parse code = Inr ast"
    and "assertDefineRouteOnlyAfterExportDefault ast = Inr ()"
    and "exportDefaultDeclarations ast = []"
  shows "parseFields babel_parse code = Inr [] \<and>
         transform_ExportDefaultDeclaration [] (exportDefaultDeclarations ast) = Inr [] \<and>
         strip ast = Inr ast \<and>
         transform babel_parse findReferencedIdentifiers deadCodeElimination generate code i
             (Some False) =
           Inr (Generated
                  (generate (deadCodeElimination ast (findReferencedIdentifiers ast)) i code)) \<and>
         transform babel_parse findReferencedIdentifiers deadCodeElimination generate code i
             None =
           Inr (Generated
                  (generate (deadCodeElimination ast (findReferencedIdentifiers ast)) i code))"
  using assms
  by (simp add: parseFields_def parse_def transform_def strip_def remove_def prune_nothing)

theorem without_default_export_witness:
  "reads ''const x = 1;'' no_default_export ''const x = 1;'' = Inr no_default_export \<and>
   assertDefineRouteOnlyAfterExportDefault no_default_export = Inr () \<and>
   exportDefaultDeclarations no_default_export = [] \<and>
   parseFields (reads ''const x = 1;'' no_default_export) ''const x = 1;'' = Inr [] \<and>
   strip no_default_export = Inr no_default_export"
proof -
  have h1: "reads ''const x = 1;'' no_default_export ''const x = 1;'' = Inr no_default_export"
    by (simp add: reads_def)
  have h2: "assertDefineRouteOnlyAfterExportDefault no_default_export = Inr ()"
    by code_simp
  have h3: "exportDefaultDeclarations no_default_export = []"
    by code_simp
  from without_default_export[where babel_parse = "reads ''const x = 1;'' no_default_export"
      and code = "''const x = 1;''" and ast = no_default_export
      and findReferencedIdentifiers = "\<lambda>ast. ()" and deadCodeElimination = "\<lambda>ast refs. ast"
      and generate = "\<lambda>ast i code. ()" and i = "[]", OF h1 h2 h3] h1 h2 h3
  show ?thesis
    by simp
qed

subsection \<open>The listed fields\<close>

text \<open>
  Claim C4, as stated, fails: \<^verbatim>\<open>export default { foo: 1 }\<close> lists the field \<^verbatim>\<open>foo\<close>,
  which is none of the keys of \<^verbatim>\<open>Analysis\<close>.
\<close>

theorem parseFields_unknown_field:
  "parseFields (reads ''export default { foo: 1 }'' unknown_field) ''export default { foo: 1 }''
     = Inr [''foo''] \<and>
   ''foo'' \<notin> set Analysis_fields"
  by code_simp

text \<open>
  Claim C4, amended.  When \<open>parseFields\<close> succeeds on a module with a default export,
  every property of the exported object has a non-computed identifier key, and the
  result lists these key names, each once, in the order of their first occurrence,
  whether or not they are keys of \<^verbatim>\<open>Analysis\<close> (\<open>remdups\<close> keeps the last
  occurrence of each element, hence the reversals).  The object is that of the last
  default export visited; it is assumed to have no key \<^verbatim>\<open>__proto__\<close>.
\<close>

theorem parseFields_first_occurrences:
  assumes "babel_parse code = Inr ast"
    and "exportDefaultDeclarations ast = paths @ [path]"
    and "parseFields babel_parse code = Inr fs"
    and "''__proto__'' \<notin> set (map key_name (exported_properties (node path)))"
  shows "fs = rev (remdups (rev (map key_name (exported_properties (node path))))) \<and>
         (\<forall>p\<in>set (exported_properties (node path)).
            (\<exists>v. p = ObjectProperty False (Identifier (key_name p)) v) \<or>
            (\<exists>ps b. p = ObjectMethod False (Identifier (key_name p)) ps b))"
proof -
  from assms(1,2,3)
  have "parseFields_ExportDefaultDeclaration [] (paths @ [path]) = Inr fs"
    by (auto simp: parseFields_def parse_def split: sum.splits)
  from parseFields_last[OF this] obtain analysis
    where an: "analyzeRouteExport path = Inr analysis" and fs: "fs = Object_keys analysis"
    by blast
  from analyzeRouteExport_properties[OF an] obtain objectPath
    where run: "analyzeProperties objectPath 0 [] (exported_properties (node path)) = Inr analysis"
    by blast
  from analyzeProperties_keys[OF run assms(4)] fs
  have 1: "fs = rev (remdups (rev (map key_name (exported_properties (node path)))))"
    by (simp add: Object_keys_def)
  have 2: "\<forall>p\<in>set (exported_properties (node path)).
            (\<exists>v. p = ObjectProperty False (Identifier (key_name p)) v) \<or>
            (\<exists>ps b. p = ObjectMethod False (Identifier (key_name p)) ps b)"
  proof
    fix p assume "p \<in> set (exported_properties (node path))"
    from analyzeProperties_each[OF run this] obtain pp k where ok: "analyzeProperty pp p = Inr k"
      by blast
    from analyzeProperty_accepts[OF ok] analyzeProperty_key[OF ok]
    show "(\<exists>v. p = ObjectProperty False (Identifier (key_name p)) v) \<or>
            (\<exists>ps b. p = ObjectMethod False (Identifier (key_name p)) ps b)"
      by auto
  qed
  from 1 2 show ?thesis by blast
qed

theorem parseFields_first_occurrences_witness:
  "reads ''export default defineRoute({...})'' route_module
     ''export default defineRoute({...})'' = Inr route_module \<and>
   parseFields (reads ''export default defineRoute({...})'' route_module)
     ''export default defineRoute({...})'' = Inr [''params'', ''serverLoader'', ''Component''] \<and>
   [''params'', ''serverLoader'', ''Component''] =
     rev (remdups (rev (map key_name
       (exported_properties (node (exportDefaultDeclarations route_module ! 0))))))"
proof -
  let ?text = "''export default defineRoute({...})''"
  let ?path = "exportDefaultDeclarations route_module ! 0"
  have h1: "reads ?text route_module ?text = Inr route_module"
    by (simp add: reads_def)
  have h2: "exportDefaultDeclarations route_module = [] @ [?path]"
    by code_simp
  have h3: "parseFields (reads ?text route_module) ?text =
      Inr [''params'', ''serverLoader'', ''Component'']"
    by code_simp
  have h4: "''__proto__'' \<notin> set (map key_name (exported_properties (node ?path)))"
    by code_simp
  from parseFields_first_occurrences[OF h1 h2 h3 h4] h1 h3 show ?thesis
    by blast
qed

subsection \<open>Modules that must not import the factory\<close>

text \<open>
  Claim C8, as stated, fails: the module
  \<^verbatim>\<open>import { "defineRoute" as dr } from "react-router"; dr({});\<close> binds the factory
  and uses it, and \<open>assertNotImported\<close> returns without error.  The test
  \<open>isCanonicallyImportedAs\<close> answers no when the imported name is not an identifier.
\<close>

theorem assertNotImported_misses_string_name:
  "factory_bound string_named_import_body \<and>
   assertNotImported
     (reads ''import { <string defineRoute> as dr } ...'' (File (Program string_named_import_body)))
     ''import { <string defineRoute> as dr } ...'' = Inr ()"
  by code_simp

text \<open>
  Claim C8, amended.  For a parsed module (one program, imports at its top level
  only, no name declared twice at the top level): if the module imports the
  factory under the identifier \<^verbatim>\<open>defineRoute\<close> as imported name, used or not and
  under any local name, \<open>assertNotImported\<close> fails with the import-presence error;
  if it has no such import, \<open>assertNotImported\<close> returns without error.
\<close>

theorem assertNotImported_iff_imported:
  assumes "babel_parse code = Inr (File (Program body))"
    and "top_level body"
    and "distinct (map fst (frame_of (Program body)))"
  shows "(imports_defineRoute body \<longrightarrow>
            (\<exists>l. assertNotImported babel_parse code =
                   Inl (CodeFrameError l DefineRouteOutsideRouteModules))) \<and>
         (\<not> imports_defineRoute body \<longrightarrow> assertNotImported babel_parse code = Inr ()) \<and>
         kind_of DefineRouteOutsideRouteModules = ImportPresenceError"
proof -
  let ?ast = "File (Program body)"
  from assms(1) have run: "assertNotImported babel_parse code =
      each assertNotImported_Identifier (identifiers ?ast)"
    by (simp add: assertNotImported_def parse_def)
  have "(\<exists>p\<in>set (identifiers ?ast). isDefineRoute p) \<longleftrightarrow> imports_defineRoute body"
  proof
    assume "\<exists>p\<in>set (identifiers ?ast). isDefineRoute p"
    then obtain p where "p \<in> set (traverse ?ast)" and "isDefineRoute p"
      by (auto simp: identifiers_def)
    with assms(2) show "imports_defineRoute body"
      by (rule resolved_imports)
  next
    assume "imports_defineRoute body"
    from import_resolved[OF this assms(3)] show "\<exists>p\<in>set (identifiers ?ast). isDefineRoute p"
      by (auto simp: identifiers_def)
  qed
  then show ?thesis
    unfolding run each_assertNotImported by auto
qed

theorem assertNotImported_iff_imported_witness:
  "reads ''import { defineRoute } ...'' (File (Program unused_import_body))
     ''import { defineRoute } ...'' = Inr (File (Program unused_import_body)) \<and>
   top_level unused_import_body \<and>
   distinct (map fst (frame_of (Program unused_import_body))) \<and>
   imports_defineRoute unused_import_body \<and>
   (\<exists>l. assertNotImported (reads ''import { defineRoute } ...'' (File (Program unused_import_body)))
          ''import { defineRoute } ...'' =
        Inl (CodeFrameError l DefineRouteOutsideRouteModules)) \<and>
   \<not> imports_defineRoute plain_body \<and>
   assertNotImported (reads ''const x = 1;'' (File (Program plain_body))) ''const x = 1;'' = Inr ()"
proof -
  let ?t = "''import { defineRoute } ...''"
  let ?u = "''const x = 1;''"
  have a1: "reads ?t (File (Program unused_import_body)) ?t = Inr (File (Program unused_import_body))"
    and b1: "reads ?u (File (Program plain_body)) ?u = Inr (File (Program plain_body))"
    by (simp_all add: reads_def)
  have a2: "top_level unused_import_body" and b2: "top_level plain_body"
    by code_simp+
  have a3: "distinct (map fst (frame_of (Program unused_import_body)))"
    and b3: "distinct (map fst (frame_of (Program plain_body)))"
    by code_simp+
  have a4: "imports_defineRoute unused_import_body" and b4: "\<not> imports_defineRoute plain_body"
    by code_simp+
  from assertNotImported_iff_imported[where babel_parse = "reads ?t (File (Program unused_import_body))"
      and code = ?t, OF a1 a2 a3] a4
  have a: "\<exists>l. assertNotImported (reads ?t (File (Program unused_import_body))) ?t =
        Inl (CodeFrameError l DefineRouteOutsideRouteModules)"
    by blast
  from assertNotImported_iff_imported[where babel_parse = "reads ?u (File (Program plain_body))"
      and code = ?u, OF b1 b2 b3] b4
  have b: "assertNotImported (reads ?u (File (Program plain_body))) ?u = Inr ()"
    by blast
  from a1 a2 a3 a4 a b4 b show ?thesis
    by blast
qed

subsection \<open>Where the code departs from the claims\<close>

text \<open>
  Claim C1, at \<^verbatim>\<open>export default { serverLoader: 1, serverLoader: 2 }\<close>.  The analysis
  keeps one path per key, the last, so only the second \<^verbatim>\<open>serverLoader\<close> is marked:
  the tree that a client build hands to dead-code elimination and the generator
  still has the first \<^verbatim>\<open>serverLoader\<close> property.
\<close>

theorem strip_keeps_duplicate_field:
  "strip duplicate_serverLoader_module =
     Inr (File (Program [ExportDefaultDeclaration (ObjectExpression
            [ObjectProperty False (Identifier ''serverLoader'') (NumericLiteral 1)])])) \<and>
   transform (reads ''export default {...}'' duplicate_serverLoader_module)
       findReferencedIdentifiers deadCodeElimination generate ''export default {...}'' i
       (Some False) =
     Inr (Generated (generate
       (deadCodeElimination
          (File (Program [ExportDefaultDeclaration (ObjectExpression
             [ObjectProperty False (Identifier ''serverLoader'') (NumericLiteral 1)])]))
          (findReferencedIdentifiers duplicate_serverLoader_module))
       i ''export default {...}''))"
proof -
  have s: "strip duplicate_serverLoader_module =
     Inr (File (Program [ExportDefaultDeclaration (ObjectExpression
            [ObjectProperty False (Identifier ''serverLoader'') (NumericLiteral 1)])]))"
    by code_simp
  then show ?thesis
    by (simp add: transform_def parse_def reads_def)
qed

text \<open>
  Claim C7, at the same module.  A second client transformation of the result of
  the first removes the property the first one left: the two results differ.
\<close>

theorem strip_twice_differs:
  "strip duplicate_serverLoader_module =
     Inr (File (Program [ExportDefaultDeclaration (ObjectExpression
            [ObjectProperty False (Identifier ''serverLoader'') (NumericLiteral 1)])])) \<and>
   strip (File (Program [ExportDefaultDeclaration (ObjectExpression
            [ObjectProperty False (Identifier ''serverLoader'') (NumericLiteral 1)])])) =
     Inr (File (Program [ExportDefaultDeclaration (ObjectExpression [])]))"
  by code_simp

text \<open>
  Claim C3, at
  \<^verbatim>\<open>import { defineRoute } from "react-router"; export default foo(defineRoute);\<close>.
  Outside the import specifier one identifier resolves to the factory: the
  argument of the call.  The guard tests that the parent of the identifier is a
  call, not that the identifier is its callee, and accepts the module.
\<close>

theorem guard_accepts_factory_as_argument:
  "map loc
     (filter (\<lambda>path. isDefineRoute path \<and> \<not> is_a isImportSpecifier (parent path))
        (identifiers factory_as_argument)) =
     [[Key ''program'', Idx ''body'' 1, Key ''declaration'', Idx ''arguments'' 0]] \<and>
   assertDefineRouteOnlyAfterExportDefault factory_as_argument = Inr ()"
  by code_simp

end
